theory Spec2Isabelle
  imports Main "HOL-Library.Word" "HOL-Library.Monad_Syntax" "HOL-Library.Sublist"
begin

unbundle bit_operations_syntax

section \<open>The EPD2 driver (Sketches/libraries/EPD2/EPD2.cpp)\<close>

text \<open>
  The driver is an Arduino library: the model follows the AVR build (the \<open>#else\<close>
  branch of \<open>__MSP430_CPU__\<close>), where \<open>uint8_t\<close>, \<open>uint16_t\<close> and
  \<open>unsigned long\<close> are 8, 16 and 32 bit words. Every function of the source that
  touches the board is a function on the board state \<open>hw\<close>; a function that
  busy-waits returns \<open>hw option\<close>, and \<open>None\<close> is the wait that never ends.
\<close>

subsection \<open>Declarations of EPD2.h\<close>

text \<open>
  Modelled from the spec: the header EPD2.h is not among the sources. Its enumerations,
  the compensation structure and the members of the class are taken from the spec's data
  model and from the way EPD2.cpp uses them.
\<close>

datatype EPD_size = EPD_1_44 | EPD_2_0 | EPD_2_7

datatype EPD_stage = EPD_inverse | EPD_normal

datatype EPD_error = EPD_OK | EPD_UNSUPPORTED_COG | EPD_PANEL_BROKEN | EPD_DC_FAILED

record compensation_type =
  stage1_repeat :: nat
  stage1_step :: nat
  stage1_block :: nat
  stage2_repeat :: nat
  stage2_t1 :: nat
  stage2_t2 :: nat
  stage3_repeat :: nat
  stage3_step :: nat
  stage3_block :: nat

record EPD_Class =
  size_EPD :: EPD_size
  lines_per_display :: "16 word"
  dots_per_line :: "16 word"
  bytes_per_line :: "16 word"
  bytes_per_scan :: "16 word"
  channel_select :: "8 word list"
  temperature_offset :: nat
  compensation :: compensation_type
  status :: EPD_error

text \<open>
  Modelled from the spec: the default arguments are declared in EPD2.h. The spec gives
  the default temperature (25); it gives no value for the default stage and border byte
  of \<open>line\<close>, which are therefore parameters of every function that leaves them out.
\<close>

record line_defaults =
  default_stage :: EPD_stage
  default_border_byte :: "8 word"

definition default_temperature :: int where
  "default_temperature = 25"

text \<open>The six pins of the constructor, by role.\<close>

datatype EPD_Pin =
  EPD_Pin_PANEL_ON | EPD_Pin_BORDER | EPD_Pin_DISCHARGE | EPD_Pin_RESET | EPD_Pin_BUSY | EPD_Pin_EPD_CS

subsection \<open>The board\<close>

text \<open>
  What the driver does to the board is recorded in order: pin writes, delays, calls of the
  SPI object, bytes shifted out, and the addresses read from program memory or RAM.
  What the board answers is a parameter (\<open>port\<close>): the byte shifted in by the n-th
  transfer, the level of a pin at the n-th \<open>digitalRead\<close>, the value of the n-th
  \<open>millis()\<close>, and the contents of the two memories.
\<close>

datatype spi_call =
  SPI_end | SPI_begin | SPI_setBitOrder_MSBFIRST | SPI_setDataMode_MODE0 | SPI_setClockDivider_DIV2

datatype event =
  Ev_write EPD_Pin bool
  | Ev_delay_ms nat
  | Ev_delay_us nat
  | Ev_spi spi_call
  | Ev_transfer "8 word"
  | Ev_pgm_read nat
  | Ev_ram_read nat

record port =
  miso :: "nat \<Rightarrow> 8 word"
  pin_input :: "EPD_Pin \<Rightarrow> nat \<Rightarrow> bool"
  clock :: "nat \<Rightarrow> 32 word"
  flash :: "nat \<Rightarrow> 8 word"
  sram :: "nat \<Rightarrow> 8 word"

record hw =
  pin_level :: "EPD_Pin \<Rightarrow> bool"
  trace :: "event list"
  n_transfer :: nat
  n_read :: nat
  n_millis :: nat

definition digitalWrite :: "EPD_Pin \<Rightarrow> bool \<Rightarrow> hw \<Rightarrow> hw" where
  "digitalWrite pin level st =
     st\<lparr>pin_level := (pin_level st)(pin := level), trace := trace st @ [Ev_write pin level]\<rparr>"

definition digitalRead :: "port \<Rightarrow> EPD_Pin \<Rightarrow> hw \<Rightarrow> bool \<times> hw" where
  "digitalRead env pin st = (pin_input env pin (n_read st), st\<lparr>n_read := Suc (n_read st)\<rparr>)"

definition Delay_ms :: "nat \<Rightarrow> hw \<Rightarrow> hw" where
  "Delay_ms ms st = st\<lparr>trace := trace st @ [Ev_delay_ms ms]\<rparr>"

definition Delay_us :: "nat \<Rightarrow> hw \<Rightarrow> hw" where
  "Delay_us us st = st\<lparr>trace := trace st @ [Ev_delay_us us]\<rparr>"

definition millis :: "port \<Rightarrow> hw \<Rightarrow> 32 word \<times> hw" where
  "millis env st = (clock env (n_millis st), st\<lparr>n_millis := Suc (n_millis st)\<rparr>)"

definition SPI_call :: "spi_call \<Rightarrow> hw \<Rightarrow> hw" where
  "SPI_call c st = st\<lparr>trace := trace st @ [Ev_spi c]\<rparr>"

definition SPI_transfer :: "port \<Rightarrow> 8 word \<Rightarrow> hw \<Rightarrow> 8 word \<times> hw" where
  "SPI_transfer env c st =
     (miso env (n_transfer st),
      st\<lparr>trace := trace st @ [Ev_transfer c], n_transfer := Suc (n_transfer st)\<rparr>)"

definition pgm_read_byte_near :: "port \<Rightarrow> nat \<Rightarrow> hw \<Rightarrow> 8 word \<times> hw" where
  "pgm_read_byte_near env a st = (flash env a, st\<lparr>trace := trace st @ [Ev_pgm_read a]\<rparr>)"

definition ram_read :: "port \<Rightarrow> nat \<Rightarrow> hw \<Rightarrow> 8 word \<times> hw" where
  "ram_read env a st = (sram env a, st\<lparr>trace := trace st @ [Ev_ram_read a]\<rparr>)"

subsection \<open>The SPI helpers (lines 640-713)\<close>

definition SPI_put :: "port \<Rightarrow> 8 word \<Rightarrow> hw \<Rightarrow> hw" where
  "SPI_put env c st = snd (SPI_transfer env c st)"

definition SPI_on :: "port \<Rightarrow> hw \<Rightarrow> hw" where
  "SPI_on env st =
     (let st = SPI_call SPI_end st;
          st = SPI_call SPI_begin st;
          st = SPI_call SPI_setBitOrder_MSBFIRST st;
          st = SPI_call SPI_setDataMode_MODE0 st;
          st = SPI_call SPI_setClockDivider_DIV2 st;
          st = SPI_put env 0x00 st;
          st = SPI_put env 0x00 st;
          st = Delay_us 10 st
      in st)"

definition SPI_off :: "port \<Rightarrow> hw \<Rightarrow> hw" where
  "SPI_off env st =
     (let st = SPI_call SPI_setDataMode_MODE0 st;
          st = SPI_put env 0x00 st;
          st = SPI_put env 0x00 st;
          st = Delay_us 10 st;
          st = SPI_call SPI_end st
      in st)"

text \<open>
  \<open>while (HIGH == digitalRead(busy_pin)) { }\<close>: the wait of \<open>SPI_put_wait\<close> has no
  bound in the source, so it is a partial function.
\<close>

partial_function (option) wait_while_high :: "port \<Rightarrow> EPD_Pin \<Rightarrow> hw \<Rightarrow> hw option" where
  "wait_while_high env busy_pin st =
     (case digitalRead env busy_pin st of
        (level, st') \<Rightarrow> if level then wait_while_high env busy_pin st' else Some st')"

definition SPI_put_wait :: "port \<Rightarrow> 8 word \<Rightarrow> EPD_Pin \<Rightarrow> hw \<Rightarrow> hw option" where
  "SPI_put_wait env c busy_pin st = wait_while_high env busy_pin (SPI_put env c st)"

text \<open>
  A buffer and its length are one list. \<open>SPI_send\<close> shifts the bytes out between a
  falling and a rising edge of chip select; \<open>SPI_read\<close> does the same and returns the
  byte shifted in by the last transfer (0 for an empty buffer). The local \<open>rbuffer\<close>
  of \<open>SPI_read\<close> is written and never read.
\<close>

fun SPI_send_loop :: "port \<Rightarrow> 8 word list \<Rightarrow> hw \<Rightarrow> hw" where
  "SPI_send_loop env [] st = st"
| "SPI_send_loop env (c # buffer) st = SPI_send_loop env buffer (SPI_put env c st)"

definition SPI_send :: "port \<Rightarrow> EPD_Pin \<Rightarrow> 8 word list \<Rightarrow> hw \<Rightarrow> hw" where
  "SPI_send env cs_pin buffer st =
     (let st = Delay_us 10 st;
          st = digitalWrite cs_pin False st;
          st = SPI_send_loop env buffer st;
          st = digitalWrite cs_pin True st
      in st)"

fun SPI_read_loop :: "port \<Rightarrow> 8 word list \<Rightarrow> 8 word \<Rightarrow> hw \<Rightarrow> 8 word \<times> hw" where
  "SPI_read_loop env [] result st = (result, st)"
| "SPI_read_loop env (c # buffer) result st =
     (case SPI_transfer env c st of (result', st') \<Rightarrow> SPI_read_loop env buffer result' st')"

definition SPI_read :: "port \<Rightarrow> EPD_Pin \<Rightarrow> 8 word list \<Rightarrow> hw \<Rightarrow> 8 word \<times> hw" where
  "SPI_read env cs_pin buffer st =
     (let st = Delay_us 10 st;
          st = digitalWrite cs_pin False st
      in case SPI_read_loop env buffer 0 st of
           (result, st) \<Rightarrow> (result, digitalWrite cs_pin True st))"

subsection \<open>One scan line (lines 540-637)\<close>

text \<open>
  A pointer is an address, 0 the null pointer. The three loops of \<open>line\<close> count in
  \<open>uint16_t\<close>: the first down from \<open>bytes_per_line\<close> to 1, the other two up from 0
  to a 16-bit bound, so none of them wraps and each is a recursion on a natural number.
\<close>

definition read_data :: "port \<Rightarrow> bool \<Rightarrow> nat \<Rightarrow> hw \<Rightarrow> 8 word \<times> hw" where
  "read_data env read_progmem a st =
     (if read_progmem then pgm_read_byte_near env a st else ram_read env a st)"

fun odd_pixels ::
  "port \<Rightarrow> nat \<Rightarrow> 8 word \<Rightarrow> bool \<Rightarrow> EPD_stage \<Rightarrow> nat \<Rightarrow> hw \<Rightarrow> hw option" where
  "odd_pixels env data fixed_value read_progmem stage 0 st = Some st"
| "odd_pixels env data fixed_value read_progmem stage (Suc b) st =
     (if data \<noteq> 0 then
        (case read_data env read_progmem (data + Suc b - 1) st of
           (byte, st) \<Rightarrow>
             let pixels = byte AND 0x55;
                 pixels = (case stage of
                             EPD_inverse \<Rightarrow> 0xaa OR (pixels XOR 0x55)
                           | EPD_normal \<Rightarrow> 0xaa OR pixels)
             in SPI_put_wait env pixels EPD_Pin_BUSY st)
      else SPI_put_wait env fixed_value EPD_Pin_BUSY st)
     \<bind> odd_pixels env data fixed_value read_progmem stage b"

function scan_line :: "port \<Rightarrow> nat \<Rightarrow> 16 word \<Rightarrow> nat \<Rightarrow> nat \<Rightarrow> hw \<Rightarrow> hw option" where
  "scan_line env n_scan scan_pos scan_shift b st =
     (if b < n_scan then
        (if scan_pos = of_nat b
         then SPI_put_wait env (push_bit scan_shift 0x03) EPD_Pin_BUSY st
         else SPI_put_wait env 0x00 EPD_Pin_BUSY st)
        \<bind> scan_line env n_scan scan_pos scan_shift (Suc b)
      else Some st)"
  by pat_completeness auto
termination
  by (relation "measure (\<lambda>(env, n_scan, scan_pos, scan_shift, b, st). n_scan - b)") auto

function even_pixels ::
  "port \<Rightarrow> nat \<Rightarrow> 8 word \<Rightarrow> bool \<Rightarrow> EPD_stage \<Rightarrow> nat \<Rightarrow> nat \<Rightarrow> hw \<Rightarrow> hw option" where
  "even_pixels env data fixed_value read_progmem stage n_line b st =
     (if b < n_line then
        (if data \<noteq> 0 then
           (case read_data env read_progmem (data + b) st of
              (byte, st) \<Rightarrow>
                let pixels = byte AND 0xaa;
                    pixels = (case stage of
                                EPD_inverse \<Rightarrow> 0xaa OR drop_bit 1 (pixels XOR 0xaa)
                              | EPD_normal \<Rightarrow> 0xaa OR drop_bit 1 pixels);
                    p1 = drop_bit 6 pixels AND 0x03;
                    p2 = drop_bit 4 pixels AND 0x03;
                    p3 = drop_bit 2 pixels AND 0x03;
                    p4 = drop_bit 0 pixels AND 0x03;
                    pixels = push_bit 0 p1 OR push_bit 2 p2 OR push_bit 4 p3 OR push_bit 6 p4
                in SPI_put_wait env pixels EPD_Pin_BUSY st)
         else SPI_put_wait env fixed_value EPD_Pin_BUSY st)
        \<bind> even_pixels env data fixed_value read_progmem stage n_line (Suc b)
      else Some st)"
  by pat_completeness auto
termination
  by (relation "measure (\<lambda>(env, data, fixed_value, read_progmem, stage, n_line, b, st). n_line - b)") auto

declare scan_line.simps [simp del] even_pixels.simps [simp del]

text \<open>
  \<open>scan_pos\<close> is computed in \<open>unsigned int\<close> (the operands are \<open>uint16_t\<close>), so
  it wraps modulo \<open>2^16\<close> for a line index beyond the display, and is compared with the
  loop counter as an unsigned value.
\<close>

definition line ::
  "EPD_Class \<Rightarrow> port \<Rightarrow> 16 word \<Rightarrow> nat \<Rightarrow> 8 word \<Rightarrow> bool \<Rightarrow> EPD_stage \<Rightarrow> 8 word \<Rightarrow> hw \<Rightarrow> hw option" where
  "line d env line_no data fixed_value read_progmem stage border_byte st = do {
     let st = SPI_on env st;
     let st = SPI_send env EPD_Pin_EPD_CS [0x70, 0x0a] st;
     let st = Delay_us 10 st;
     let st = digitalWrite EPD_Pin_EPD_CS False st;
     st \<leftarrow> SPI_put_wait env 0x72 EPD_Pin_BUSY st;
     st \<leftarrow> SPI_put_wait env border_byte EPD_Pin_BUSY st;
     st \<leftarrow> odd_pixels env data fixed_value read_progmem stage (unat (bytes_per_line d)) st;
     let scan_pos = (lines_per_display d - line_no - 1) div 4;
     let scan_shift = 2 * unat (line_no AND 0x03);
     st \<leftarrow> scan_line env (unat (bytes_per_scan d)) scan_pos scan_shift 0 st;
     st \<leftarrow> even_pixels env data fixed_value read_progmem stage (unat (bytes_per_line d)) 0 st;
     let st = digitalWrite EPD_Pin_EPD_CS True st;
     let st = SPI_send env EPD_Pin_EPD_CS [0x70, 0x02] st;
     let st = SPI_send env EPD_Pin_EPD_CS [0x72, 0x07] st;
     Some (SPI_off env st)
   }"

subsection \<open>Construction and temperature compensation (lines 40-144)\<close>

definition compensation_144 :: "compensation_type list" where
  "compensation_144 =
    [\<lparr>stage1_repeat = 2, stage1_step = 6, stage1_block = 42,
      stage2_repeat = 4, stage2_t1 = 392, stage2_t2 = 392,
      stage3_repeat = 2, stage3_step = 6, stage3_block = 42\<rparr>,
     \<lparr>stage1_repeat = 4, stage1_step = 2, stage1_block = 16,
      stage2_repeat = 4, stage2_t1 = 155, stage2_t2 = 155,
      stage3_repeat = 4, stage3_step = 2, stage3_block = 16\<rparr>,
     \<lparr>stage1_repeat = 4, stage1_step = 2, stage1_block = 16,
      stage2_repeat = 4, stage2_t1 = 155, stage2_t2 = 155,
      stage3_repeat = 4, stage3_step = 2, stage3_block = 16\<rparr>]"

definition compensation_200 :: "compensation_type list" where
  "compensation_200 =
    [\<lparr>stage1_repeat = 2, stage1_step = 6, stage1_block = 42,
      stage2_repeat = 4, stage2_t1 = 392, stage2_t2 = 392,
      stage3_repeat = 2, stage3_step = 6, stage3_block = 42\<rparr>,
     \<lparr>stage1_repeat = 2, stage1_step = 2, stage1_block = 48,
      stage2_repeat = 4, stage2_t1 = 196, stage2_t2 = 196,
      stage3_repeat = 2, stage3_step = 2, stage3_block = 48\<rparr>,
     \<lparr>stage1_repeat = 4, stage1_step = 2, stage1_block = 48,
      stage2_repeat = 4, stage2_t1 = 196, stage2_t2 = 196,
      stage3_repeat = 4, stage3_step = 2, stage3_block = 48\<rparr>]"

definition compensation_270 :: "compensation_type list" where
  "compensation_270 =
    [\<lparr>stage1_repeat = 2, stage1_step = 8, stage1_block = 64,
      stage2_repeat = 4, stage2_t1 = 392, stage2_t2 = 392,
      stage3_repeat = 2, stage3_step = 8, stage3_block = 64\<rparr>,
     \<lparr>stage1_repeat = 2, stage1_step = 8, stage1_block = 64,
      stage2_repeat = 4, stage2_t1 = 196, stage2_t2 = 196,
      stage3_repeat = 2, stage3_step = 8, stage3_block = 64\<rparr>,
     \<lparr>stage1_repeat = 4, stage1_step = 8, stage1_block = 64,
      stage2_repeat = 4, stage2_t1 = 196, stage2_t2 = 196,
      stage3_repeat = 4, stage3_step = 8, stage3_block = 64\<rparr>]"

text \<open>
  The \<open>default:\<close> label of both switches stands before \<open>case EPD_1_44\<close>; the
  enumeration has no fourth value, so the first branch of the case is all of it.
\<close>

definition setFactor :: "int \<Rightarrow> EPD_Class \<Rightarrow> EPD_Class" where
  "setFactor temperature d =
     (let d = (if temperature < 10 then d\<lparr>temperature_offset := 0\<rparr>
               else if temperature > 40 then d\<lparr>temperature_offset := 2\<rparr>
               else d\<lparr>temperature_offset := 1\<rparr>)
      in case size_EPD d of
           EPD_1_44 \<Rightarrow> d\<lparr>compensation := compensation_144 ! temperature_offset d\<rparr>
         | EPD_2_0 \<Rightarrow> d\<lparr>compensation := compensation_200 ! temperature_offset d\<rparr>
         | EPD_2_7 \<Rightarrow> d\<lparr>compensation := compensation_270 ! temperature_offset d\<rparr>)"

text \<open>
  The constructor assigns the members one by one; \<open>d\<close> is the object's storage before
  it runs. It leaves \<open>status\<close> as it finds it.
\<close>

definition EPD_Class_ctor :: "EPD_size \<Rightarrow> EPD_Class \<Rightarrow> EPD_Class" where
  "EPD_Class_ctor sz d =
     (let d = d\<lparr>size_EPD := sz\<rparr>;
          d = d\<lparr>lines_per_display := 96\<rparr>;
          d = d\<lparr>dots_per_line := 128\<rparr>;
          d = d\<lparr>bytes_per_line := 128 div 8\<rparr>;
          d = d\<lparr>bytes_per_scan := 96 div 4\<rparr>;
          d = setFactor default_temperature d;
          d = d\<lparr>channel_select := [0x72, 0x00, 0x00, 0x00, 0x00, 0x00, 0x0f, 0xff, 0x00]\<rparr>
      in case sz of
           EPD_1_44 \<Rightarrow> d
         | EPD_2_0 \<Rightarrow>
             d\<lparr>lines_per_display := 96, dots_per_line := 200, bytes_per_line := 200 div 8,
               bytes_per_scan := 96 div 4,
               channel_select := [0x72, 0x00, 0x00, 0x00, 0x00, 0x01, 0xff, 0xe0, 0x00]\<rparr>
         | EPD_2_7 \<Rightarrow>
             d\<lparr>lines_per_display := 176, dots_per_line := 264, bytes_per_line := 264 div 8,
               bytes_per_scan := 176 div 4,
               channel_select := [0x72, 0x00, 0x00, 0x00, 0x7f, 0xff, 0xfe, 0x00, 0x00]\<rparr>)"

subsection \<open>Power up and power down (lines 147-367)\<close>

function discharge_pulses :: "nat \<Rightarrow> hw \<Rightarrow> hw" where
  "discharge_pulses i st =
     (if i < 10 then
        (let st = Delay_ms 10 st;
             st = digitalWrite EPD_Pin_DISCHARGE True st;
             st = Delay_ms 10 st;
             st = digitalWrite EPD_Pin_DISCHARGE False st
         in discharge_pulses (Suc i) st)
      else st)"
  by pat_completeness auto
termination
  by (relation "measure (\<lambda>(i, st). 10 - i)") auto

declare discharge_pulses.simps [simp del]

definition power_off :: "port \<Rightarrow> hw \<Rightarrow> hw" where
  "power_off env st =
     (let st = digitalWrite EPD_Pin_RESET False st;
          st = digitalWrite EPD_Pin_PANEL_ON False st;
          st = digitalWrite EPD_Pin_BORDER False st;
          st = SPI_off env st;
          st = digitalWrite EPD_Pin_EPD_CS False st
      in discharge_pulses 0 st)"

text \<open>
  \<open>while (HIGH == digitalRead(this->EPD_Pin_BUSY)) { Delay_us(10); }\<close>: no bound in
  the source.
\<close>

partial_function (option) wait_cog_ready :: "port \<Rightarrow> hw \<Rightarrow> hw option" where
  "wait_cog_ready env st =
     (case digitalRead env EPD_Pin_BUSY st of
        (level, st') \<Rightarrow> if level then wait_cog_ready env (Delay_us 10 st') else Some st')"

text \<open>
  The retry loop of \<open>begin\<close> (lines 238-266): the result is \<open>dc_ok\<close> and the board
  state; the \<open>break\<close> is the branch that does not recur.
\<close>

function charge_pump :: "port \<Rightarrow> nat \<Rightarrow> hw \<Rightarrow> bool \<times> hw" where
  "charge_pump env i st =
     (if i < 4 then
        (let st = SPI_send env EPD_Pin_EPD_CS [0x70, 0x05] st;
             st = SPI_send env EPD_Pin_EPD_CS [0x72, 0x01] st;
             st = Delay_ms 240 st;
             st = SPI_send env EPD_Pin_EPD_CS [0x70, 0x05] st;
             st = SPI_send env EPD_Pin_EPD_CS [0x72, 0x03] st;
             st = Delay_ms 40 st;
             st = SPI_send env EPD_Pin_EPD_CS [0x70, 0x05] st;
             st = SPI_send env EPD_Pin_EPD_CS [0x72, 0x0f] st;
             st = Delay_ms 40 st;
             st = SPI_send env EPD_Pin_EPD_CS [0x70, 0x0f] st
         in case SPI_read env EPD_Pin_EPD_CS [0x73, 0x00] st of
              (dc_state, st) \<Rightarrow>
                if 0x40 = (0x40 AND dc_state) then (True, st) else charge_pump env (Suc i) st)
      else (False, st))"
  by pat_completeness auto
termination
  by (relation "measure (\<lambda>(env, i, st). 4 - i)") auto

declare charge_pump.simps [simp del]

text \<open>The part of \<open>begin\<close> after the breakage check (lines 204-277).\<close>

definition begin_configure :: "EPD_Class \<Rightarrow> port \<Rightarrow> hw \<Rightarrow> EPD_Class \<times> hw" where
  "begin_configure d env st =
     (let st = SPI_send env EPD_Pin_EPD_CS [0x70, 0x0b] st;
          st = SPI_send env EPD_Pin_EPD_CS [0x72, 0x02] st;
          st = SPI_send env EPD_Pin_EPD_CS [0x70, 0x01] st;
          st = SPI_send env EPD_Pin_EPD_CS (channel_select d) st;
          st = SPI_send env EPD_Pin_EPD_CS [0x70, 0x07] st;
          st = SPI_send env EPD_Pin_EPD_CS [0x72, 0xd1] st;
          st = SPI_send env EPD_Pin_EPD_CS [0x70, 0x08] st;
          st = SPI_send env EPD_Pin_EPD_CS [0x72, 0x02] st;
          st = SPI_send env EPD_Pin_EPD_CS [0x70, 0x09] st;
          st = SPI_send env EPD_Pin_EPD_CS [0x72, 0xc2] st;
          st = SPI_send env EPD_Pin_EPD_CS [0x70, 0x04] st;
          st = SPI_send env EPD_Pin_EPD_CS [0x72, 0x03] st;
          st = SPI_send env EPD_Pin_EPD_CS [0x70, 0x03] st;
          st = SPI_send env EPD_Pin_EPD_CS [0x72, 0x01] st;
          st = SPI_send env EPD_Pin_EPD_CS [0x70, 0x03] st;
          st = SPI_send env EPD_Pin_EPD_CS [0x72, 0x00] st;
          st = Delay_ms 5 st
      in case charge_pump env 0 st of
           (dc_ok, st) \<Rightarrow>
             if \<not> dc_ok then (d\<lparr>status := EPD_DC_FAILED\<rparr>, power_off env st)
             else
               (let st = SPI_send env EPD_Pin_EPD_CS [0x70, 0x02] st;
                    st = SPI_send env EPD_Pin_EPD_CS [0x72, 0x40] st
                in (d, SPI_off env st)))"

definition EPD_begin :: "EPD_Class \<Rightarrow> port \<Rightarrow> hw \<Rightarrow> (EPD_Class \<times> hw) option" where
  "EPD_begin d env st = do {
     let d = d\<lparr>status := EPD_OK\<rparr>;
     let st = digitalWrite EPD_Pin_RESET False st;
     let st = digitalWrite EPD_Pin_PANEL_ON False st;
     let st = digitalWrite EPD_Pin_DISCHARGE False st;
     let st = digitalWrite EPD_Pin_BORDER False st;
     let st = digitalWrite EPD_Pin_EPD_CS False st;
     let st = SPI_on env st;
     let st = Delay_ms 5 st;
     let st = digitalWrite EPD_Pin_PANEL_ON True st;
     let st = Delay_ms 10 st;
     let st = digitalWrite EPD_Pin_RESET True st;
     let st = digitalWrite EPD_Pin_BORDER True st;
     let st = digitalWrite EPD_Pin_EPD_CS True st;
     let st = Delay_ms 5 st;
     let st = digitalWrite EPD_Pin_RESET False st;
     let st = Delay_ms 5 st;
     let st = digitalWrite EPD_Pin_RESET True st;
     let st = Delay_ms 5 st;
     st \<leftarrow> wait_cog_ready env st;
     let (cog_id, st) = SPI_read env EPD_Pin_EPD_CS [0x71, 0x00] st;
     let (cog_id, st) = SPI_read env EPD_Pin_EPD_CS [0x71, 0x00] st;
     if 0x02 \<noteq> (0x0f AND cog_id) then
       Some (d\<lparr>status := EPD_UNSUPPORTED_COG\<rparr>, power_off env st)
     else do {
       let st = SPI_send env EPD_Pin_EPD_CS [0x70, 0x02] st;
       let st = SPI_send env EPD_Pin_EPD_CS [0x72, 0x40] st;
       let st = SPI_send env EPD_Pin_EPD_CS [0x70, 0x0f] st;
       let (broken_panel, st) = SPI_read env EPD_Pin_EPD_CS [0x73, 0x00] st;
       if 0x00 = (0x80 AND broken_panel) then
         Some (d\<lparr>status := EPD_PANEL_BROKEN\<rparr>, power_off env st)
       else Some (begin_configure d env st)
     }
   }"

text \<open>
  \<open>end\<close>: the dummy lines of the panels other than 2.7 inch are calls of \<open>line\<close>
  with the line index \<open>0x7fff\<close>, no data and the fixed value \<open>0x00\<close>; \<open>0xff\<close> and
  \<open>0xaa\<close> are their border bytes, and the third call leaves the border byte out.
\<close>

definition end_dummy_lines :: "EPD_Class \<Rightarrow> line_defaults \<Rightarrow> port \<Rightarrow> hw \<Rightarrow> hw option" where
  "end_dummy_lines d h env st =
     (if EPD_2_7 = size_EPD d then
        (let st = Delay_ms 25 st;
             st = digitalWrite EPD_Pin_BORDER False st;
             st = Delay_ms 250 st;
             st = digitalWrite EPD_Pin_BORDER True st
         in Some st)
      else do {
        st \<leftarrow> line d env 0x7fff 0 0x00 False EPD_normal 0xff st;
        let st = Delay_ms 40 st;
        st \<leftarrow> line d env 0x7fff 0 0x00 False EPD_normal 0xaa st;
        let st = Delay_ms 200 st;
        st \<leftarrow> line d env 0x7fff 0 0x00 False EPD_normal (default_border_byte h) st;
        let st = Delay_ms 25 st;
        Some st
      })"

definition EPD_end :: "EPD_Class \<Rightarrow> line_defaults \<Rightarrow> port \<Rightarrow> hw \<Rightarrow> (EPD_Class \<times> hw) option" where
  "EPD_end d h env st = do {
     st \<leftarrow> end_dummy_lines d h env st;
     let st = SPI_on env st;
     let st = SPI_send env EPD_Pin_EPD_CS [0x70, 0x0f] st;
     let (dc_state, st) = SPI_read env EPD_Pin_EPD_CS [0x73, 0x00] st;
     if 0x40 \<noteq> (0x40 AND dc_state) then
       Some (d\<lparr>status := EPD_DC_FAILED\<rparr>, power_off env st)
     else do {
       let st = SPI_send env EPD_Pin_EPD_CS [0x70, 0x03] st;
       let st = SPI_send env EPD_Pin_EPD_CS [0x72, 0x01] st;
       let st = SPI_send env EPD_Pin_EPD_CS [0x70, 0x02] st;
       let st = SPI_send env EPD_Pin_EPD_CS [0x72, 0x05] st;
       let st = SPI_send env EPD_Pin_EPD_CS [0x70, 0x05] st;
       let st = SPI_send env EPD_Pin_EPD_CS [0x72, 0x0e] st;
       let st = SPI_send env EPD_Pin_EPD_CS [0x70, 0x05] st;
       let st = SPI_send env EPD_Pin_EPD_CS [0x72, 0x02] st;
       let st = SPI_send env EPD_Pin_EPD_CS [0x70, 0x05] st;
       let st = SPI_send env EPD_Pin_EPD_CS [0x72, 0x00] st;
       let st = SPI_send env EPD_Pin_EPD_CS [0x70, 0x07] st;
       let st = SPI_send env EPD_Pin_EPD_CS [0x72, 0x0d] st;
       let st = SPI_send env EPD_Pin_EPD_CS [0x70, 0x04] st;
       let st = SPI_send env EPD_Pin_EPD_CS [0x72, 0x83] st;
       let st = Delay_ms 120 st;
       let st = SPI_send env EPD_Pin_EPD_CS [0x70, 0x04] st;
       let st = SPI_send env EPD_Pin_EPD_CS [0x72, 0x00] st;
       Some (d, power_off env st)
     }
   }"

subsection \<open>Frames (lines 378-462)\<close>

text \<open>
  \<open>ULONG_MAX\<close> of \<open>limits.h\<close> for a 32-bit \<open>unsigned long\<close>. The update of
  \<open>stage_time\<close> (lines 385-389) subtracts an \<open>unsigned long\<close> from a \<open>long\<close>: the
  arithmetic is modulo \<open>2^32\<close>, and the result is read as a signed value by the test
  \<open>stage_time > 0\<close>.
\<close>

definition ULONG_MAX :: "32 word" where
  "ULONG_MAX = 0xFFFFFFFF"

definition stage_time_update :: "32 word \<Rightarrow> 32 word \<Rightarrow> 32 word \<Rightarrow> 32 word" where
  "stage_time_update stage_time t_start t_end =
     (if t_end > t_start then stage_time - (t_end - t_start)
      else stage_time - (t_start - t_end + 1 + ULONG_MAX))"

text \<open>
  The line counter of \<open>frame_fixed_timed\<close> is a \<open>uint8_t\<close> compared with a
  \<open>uint16_t\<close>: the loop would not end for a display of more than 255 lines. Both loops
  of the function are partial.
\<close>

partial_function (option) frame_fixed_lines ::
  "EPD_Class \<Rightarrow> line_defaults \<Rightarrow> port \<Rightarrow> 8 word \<Rightarrow> 8 word \<Rightarrow> hw \<Rightarrow> hw option" where
  "frame_fixed_lines d h env fixed_value line_no st =
     (if ucast line_no < lines_per_display d then
        line d env (ucast line_no) 0 fixed_value False (default_stage h) (default_border_byte h) st
        \<bind> frame_fixed_lines d h env fixed_value (line_no + 1)
      else Some st)"

partial_function (option) frame_fixed_timed ::
  "EPD_Class \<Rightarrow> line_defaults \<Rightarrow> port \<Rightarrow> 8 word \<Rightarrow> 32 word \<Rightarrow> hw \<Rightarrow> hw option" where
  "frame_fixed_timed d h env fixed_value stage_time st =
     (case millis env st of
        (t_start, st) \<Rightarrow>
          frame_fixed_lines d h env fixed_value 0 st \<bind>
          (\<lambda>st. case millis env st of
                  (t_end, st) \<Rightarrow>
                    let stage_time = stage_time_update stage_time t_start t_end
                    in if 0 <s stage_time
                       then frame_fixed_timed d h env fixed_value stage_time st
                       else Some st))"

text \<open>
  \<open>frame_fixed_13\<close> and \<open>frame_data_13\<close> run the same three loops around a different
  innermost statement, so the loops are written once, over the statement. The C \<open>int\<close>s
  are integers: for every panel and band of this driver the values lie between -64 and 240.
  The middle loop does not end for a step of 0, so it is partial.
\<close>

function sweep_block ::
  "(int \<Rightarrow> int \<Rightarrow> int \<Rightarrow> hw \<Rightarrow> hw option) \<Rightarrow> int \<Rightarrow> int \<Rightarrow> int \<Rightarrow> int \<Rightarrow> hw \<Rightarrow> hw option" where
  "sweep_block body block n line_pos offset st =
     (if offset < block then
        (let pos = line_pos + offset in body n offset pos st)
        \<bind> sweep_block body block n line_pos (offset + 1)
      else Some st)"
  by pat_completeness auto
termination
  by (relation "measure (\<lambda>(body, block, n, line_pos, offset, st). nat (block - offset))") auto

declare sweep_block.simps [simp del]

partial_function (option) sweep_lines ::
  "(int \<Rightarrow> int \<Rightarrow> int \<Rightarrow> hw \<Rightarrow> hw option) \<Rightarrow> int \<Rightarrow> int \<Rightarrow> int \<Rightarrow> int \<Rightarrow> int \<Rightarrow> hw \<Rightarrow> hw option" where
  "sweep_lines body step block total_lines n line_pos st =
     (if line_pos < total_lines + step then
        sweep_block body block n line_pos 0 st
        \<bind> sweep_lines body step block total_lines n (line_pos + step)
      else Some st)"

function sweep_repeat ::
  "(int \<Rightarrow> int \<Rightarrow> int \<Rightarrow> hw \<Rightarrow> hw option) \<Rightarrow> int \<Rightarrow> int \<Rightarrow> int \<Rightarrow> int \<Rightarrow> int \<Rightarrow> hw \<Rightarrow> hw option" where
  "sweep_repeat body repeat step block total_lines n st =
     (if n < repeat then
        sweep_lines body step block total_lines n (step - block) st
        \<bind> sweep_repeat body repeat step block total_lines (n + 1)
      else Some st)"
  by pat_completeness auto
termination
  by (relation "measure (\<lambda>(body, repeat, step, block, total_lines, n, st). nat (repeat - n))") auto

declare sweep_repeat.simps [simp del]

definition stage_sweep :: "EPD_Class \<Rightarrow> EPD_stage \<Rightarrow> int \<times> int \<times> int" where
  "stage_sweep d stage =
     (if EPD_inverse = stage
      then (int (stage1_repeat (compensation d)), int (stage1_step (compensation d)),
            int (stage1_block (compensation d)))
      else (int (stage3_repeat (compensation d)), int (stage3_step (compensation d)),
            int (stage3_block (compensation d))))"

definition frame_fixed_13_body ::
  "EPD_Class \<Rightarrow> line_defaults \<Rightarrow> port \<Rightarrow> 8 word \<Rightarrow> EPD_stage \<Rightarrow> int \<Rightarrow> int \<Rightarrow>
   int \<Rightarrow> int \<Rightarrow> int \<Rightarrow> hw \<Rightarrow> hw option" where
  "frame_fixed_13_body d h env value stage repeat total_lines n offset pos st =
     (if pos < 0 \<or> pos > total_lines then
        line d env 0x7fff 0 0x00 False EPD_normal (default_border_byte h) st
      else if 0 = offset \<and> n = repeat - 1 then
        line d env (word_of_int pos) 0 0x00 False EPD_normal (default_border_byte h) st
      else
        line d env (word_of_int pos) 0 value False stage (default_border_byte h) st)"

definition frame_fixed_13 ::
  "EPD_Class \<Rightarrow> line_defaults \<Rightarrow> port \<Rightarrow> 8 word \<Rightarrow> EPD_stage \<Rightarrow> hw \<Rightarrow> hw option" where
  "frame_fixed_13 d h env value stage st =
     (case stage_sweep d stage of
        (repeat, step, block) \<Rightarrow>
          let total_lines = uint (lines_per_display d)
          in sweep_repeat (frame_fixed_13_body d h env value stage repeat total_lines)
               repeat step block total_lines 0 st)"

text \<open>
  \<open>img\<close> is the address of the caller's buffer \<open>image\<close>;
  \<open>&image[pos * bytes_per_line]\<close> is the address passed to \<open>line\<close>, which
  reads it from program memory.
\<close>

definition frame_data_13_body ::
  "EPD_Class \<Rightarrow> line_defaults \<Rightarrow> port \<Rightarrow> nat \<Rightarrow> EPD_stage \<Rightarrow> int \<Rightarrow> int \<Rightarrow>
   int \<Rightarrow> int \<Rightarrow> int \<Rightarrow> hw \<Rightarrow> hw option" where
  "frame_data_13_body d h env img stage repeat total_lines n offset pos st =
     (if pos < 0 \<or> pos > total_lines then
        line d env 0x7fff 0 0x00 False EPD_normal (default_border_byte h) st
      else if 0 = offset \<and> n = repeat - 1 then
        line d env (word_of_int pos) 0 0x00 False EPD_normal (default_border_byte h) st
      else
        line d env (word_of_int pos) (img + nat pos * unat (bytes_per_line d)) 0 True stage
          (default_border_byte h) st)"

definition frame_data_13 ::
  "EPD_Class \<Rightarrow> line_defaults \<Rightarrow> port \<Rightarrow> nat \<Rightarrow> EPD_stage \<Rightarrow> hw \<Rightarrow> hw option" where
  "frame_data_13 d h env img stage st =
     (case stage_sweep d stage of
        (repeat, step, block) \<Rightarrow>
          let total_lines = uint (lines_per_display d)
          in sweep_repeat (frame_data_13_body d h env img stage repeat total_lines)
               repeat step block total_lines 0 st)"

section \<open>Notions used to state the properties\<close>

text \<open>
  \<open>emit\<close> replays a list of output events on a board state. An operation
  \<open>returns\<close> with events \<open>evs\<close> when it ends in the state reached by these
  events, some reads of the input pins later. The busy line \<open>clears\<close> when, from any
  read on, it is low at some read.
\<close>

definition emit1 :: "event \<Rightarrow> hw \<Rightarrow> hw" where
  "emit1 e st =
     (case e of
        Ev_write pin level \<Rightarrow>
          st\<lparr>pin_level := (pin_level st)(pin := level), trace := trace st @ [e]\<rparr>
      | Ev_transfer c \<Rightarrow> st\<lparr>trace := trace st @ [e], n_transfer := Suc (n_transfer st)\<rparr>
      | _ \<Rightarrow> st\<lparr>trace := trace st @ [e]\<rparr>)"

definition emit :: "event list \<Rightarrow> hw \<Rightarrow> hw" where
  "emit evs st = foldl (\<lambda>s e. emit1 e s) st evs"

definition returns :: "hw option \<Rightarrow> hw \<Rightarrow> event list \<Rightarrow> bool" where
  "returns r st evs = (\<exists>k. r = Some ((emit evs st)\<lparr>n_read := n_read st + k\<rparr>))"

definition busy_clears :: "port \<Rightarrow> EPD_Pin \<Rightarrow> bool" where
  "busy_clears env pin = (\<forall>n. \<exists>m\<ge>n. \<not> pin_input env pin m)"

text \<open>The bytes shifted out by a list of events, in order.\<close>

fun mosi :: "event list \<Rightarrow> 8 word list" where
  "mosi [] = []"
| "mosi (Ev_transfer c # evs) = c # mosi evs"
| "mosi (e # evs) = mosi evs"

text \<open>The byte at an address of the memory that \<open>read_progmem\<close> selects.\<close>

definition mem_byte :: "port \<Rightarrow> bool \<Rightarrow> nat \<Rightarrow> 8 word" where
  "mem_byte env read_progmem a = (if read_progmem then flash env a else sram env a)"

definition mem_event :: "bool \<Rightarrow> nat \<Rightarrow> event" where
  "mem_event read_progmem a = (if read_progmem then Ev_pgm_read a else Ev_ram_read a)"

text \<open>
  The pair of bits of a byte at pair position \<open>i\<close> (bits \<open>2i\<close> and \<open>2i + 1\<close>);
  \<open>w\<close> has the pairs of \<open>v\<close> in reverse order when its pair 0 is pair 3 of \<open>v\<close>
  (bit position 6), its pair 1 is pair 2 (position 4), and so on.
\<close>

definition pair_of :: "8 word \<Rightarrow> nat \<Rightarrow> 8 word" where
  "pair_of v i = take_bit 2 (drop_bit (2 * i) v)"

definition pairs_reversed :: "8 word \<Rightarrow> 8 word \<Rightarrow> bool" where
  "pairs_reversed v w = (\<forall>i<4. pair_of w i = pair_of v (3 - i))"

text \<open>The events of one call of \<open>line\<close>, as the loops of the source produce them.\<close>

definition odd_byte :: "EPD_stage \<Rightarrow> 8 word \<Rightarrow> 8 word" where
  "odd_byte stage x =
     (case stage of
        EPD_inverse \<Rightarrow> 0xaa OR ((x AND 0x55) XOR 0x55)
      | EPD_normal \<Rightarrow> 0xaa OR (x AND 0x55))"

definition swap_pairs :: "8 word \<Rightarrow> 8 word" where
  "swap_pairs v =
     push_bit 0 (drop_bit 6 v AND 0x03) OR push_bit 2 (drop_bit 4 v AND 0x03) OR
     push_bit 4 (drop_bit 2 v AND 0x03) OR push_bit 6 (drop_bit 0 v AND 0x03)"

definition even_byte :: "EPD_stage \<Rightarrow> 8 word \<Rightarrow> 8 word" where
  "even_byte stage x =
     swap_pairs (case stage of
        EPD_inverse \<Rightarrow> 0xaa OR drop_bit 1 ((x AND 0xaa) XOR 0xaa)
      | EPD_normal \<Rightarrow> 0xaa OR drop_bit 1 (x AND 0xaa))"

definition pixel_events ::
  "(EPD_stage \<Rightarrow> 8 word \<Rightarrow> 8 word) \<Rightarrow> port \<Rightarrow> nat \<Rightarrow> 8 word \<Rightarrow> bool \<Rightarrow> EPD_stage \<Rightarrow> nat \<Rightarrow> event list" where
  "pixel_events enc env data fixed_value read_progmem stage b =
     (if data \<noteq> 0
      then [mem_event read_progmem (data + b),
            Ev_transfer (enc stage (mem_byte env read_progmem (data + b)))]
      else [Ev_transfer fixed_value])"

definition scan_byte :: "16 word \<Rightarrow> 16 word \<Rightarrow> nat \<Rightarrow> 8 word" where
  "scan_byte lines line_no b =
     (if (lines - line_no - 1) div 4 = of_nat b
      then push_bit (2 * unat (line_no AND 0x03)) 0x03 else 0x00)"

definition SPI_on_events :: "event list" where
  "SPI_on_events =
     [Ev_spi SPI_end, Ev_spi SPI_begin, Ev_spi SPI_setBitOrder_MSBFIRST,
      Ev_spi SPI_setDataMode_MODE0, Ev_spi SPI_setClockDivider_DIV2,
      Ev_transfer 0x00, Ev_transfer 0x00, Ev_delay_us 10]"

definition SPI_off_events :: "event list" where
  "SPI_off_events =
     [Ev_spi SPI_setDataMode_MODE0, Ev_transfer 0x00, Ev_transfer 0x00,
      Ev_delay_us 10, Ev_spi SPI_end]"

definition SPI_send_events :: "EPD_Pin \<Rightarrow> 8 word list \<Rightarrow> event list" where
  "SPI_send_events cs_pin buffer =
     [Ev_delay_us 10, Ev_write cs_pin False] @ map Ev_transfer buffer @ [Ev_write cs_pin True]"

definition line_events ::
  "EPD_Class \<Rightarrow> port \<Rightarrow> 16 word \<Rightarrow> nat \<Rightarrow> 8 word \<Rightarrow> bool \<Rightarrow> EPD_stage \<Rightarrow> 8 word \<Rightarrow> event list" where
  "line_events d env line_no data fixed_value read_progmem stage border_byte =
     SPI_on_events @ SPI_send_events EPD_Pin_EPD_CS [0x70, 0x0a] @
     [Ev_delay_us 10, Ev_write EPD_Pin_EPD_CS False, Ev_transfer 0x72, Ev_transfer border_byte] @
     concat (map (pixel_events odd_byte env data fixed_value read_progmem stage)
       (rev [0..<unat (bytes_per_line d)])) @
     map (\<lambda>b. Ev_transfer (scan_byte (lines_per_display d) line_no b))
       [0..<unat (bytes_per_scan d)] @
     concat (map (pixel_events even_byte env data fixed_value read_progmem stage)
       [0..<unat (bytes_per_line d)]) @
     [Ev_write EPD_Pin_EPD_CS True] @
     SPI_send_events EPD_Pin_EPD_CS [0x70, 0x02] @ SPI_send_events EPD_Pin_EPD_CS [0x72, 0x07] @
     SPI_off_events"

text \<open>
  The sweep of \<open>frame_fixed_13\<close> and \<open>frame_data_13\<close> as the spec words it:
  \<open>run_all\<close> runs a list of operations in order; \<open>stripes\<close> are the values the
  middle loop takes (from a start in steps of \<open>step\<close>, below a limit);
  \<open>sweep_order\<close> lists the visited positions as (pass, stripe, offset); and
  \<open>sweep_policy\<close> chooses the events of a position: the flush line outside
  \<open>[0, total_lines]\<close>, the blanking line at offset 0 of the last pass, the real line
  otherwise.
\<close>

fun run_all :: "(hw \<Rightarrow> hw option) list \<Rightarrow> hw \<Rightarrow> hw option" where
  "run_all [] st = Some st"
| "run_all (f # fs) st = f st \<bind> run_all fs"

definition stripes :: "int \<Rightarrow> int \<Rightarrow> int \<Rightarrow> int list" where
  "stripes step limit start =
     map (\<lambda>k. start + int k * step) [0..<nat ((limit - start + step - 1) div step)]"

definition sweep_order :: "int \<Rightarrow> int \<Rightarrow> int \<Rightarrow> int \<Rightarrow> (int \<times> int \<times> int) list" where
  "sweep_order repeat step block total_lines =
     concat (map (\<lambda>n. concat (map (\<lambda>l. map (\<lambda>offset. (n, l, offset)) [0..block - 1])
       (stripes step (total_lines + step) (step - block)))) [0..repeat - 1])"

definition flush_line_events :: "EPD_Class \<Rightarrow> line_defaults \<Rightarrow> port \<Rightarrow> event list" where
  "flush_line_events d h env =
     line_events d env 0x7fff 0 0x00 False EPD_normal (default_border_byte h)"

definition blank_line_events :: "EPD_Class \<Rightarrow> line_defaults \<Rightarrow> port \<Rightarrow> int \<Rightarrow> event list" where
  "blank_line_events d h env pos =
     line_events d env (word_of_int pos) 0 0x00 False EPD_normal (default_border_byte h)"

definition fixed_line_events ::
  "EPD_Class \<Rightarrow> line_defaults \<Rightarrow> port \<Rightarrow> 8 word \<Rightarrow> EPD_stage \<Rightarrow> int \<Rightarrow> event list" where
  "fixed_line_events d h env value stage pos =
     line_events d env (word_of_int pos) 0 value False stage (default_border_byte h)"

definition data_line_events ::
  "EPD_Class \<Rightarrow> line_defaults \<Rightarrow> port \<Rightarrow> nat \<Rightarrow> EPD_stage \<Rightarrow> int \<Rightarrow> event list" where
  "data_line_events d h env img stage pos =
     line_events d env (word_of_int pos) (img + nat pos * unat (bytes_per_line d)) 0 True stage
       (default_border_byte h)"

definition sweep_policy ::
  "event list \<Rightarrow> (int \<Rightarrow> event list) \<Rightarrow> (int \<Rightarrow> event list) \<Rightarrow> int \<Rightarrow> int \<Rightarrow>
   int \<times> int \<times> int \<Rightarrow> event list" where
  "sweep_policy flush blank real repeat total_lines =
     (\<lambda>(n, l, offset).
        if l + offset < 0 \<or> total_lines < l + offset then flush
        else if offset = 0 \<and> n = repeat - 1 then blank (l + offset)
        else real (l + offset))"

text \<open>
  Event lists of the power sequences, named after the steps of the spec: the discharge
  pulse, the power-down sequence, one charge-pump attempt, a full frame of one fixed value
  (every line of the display once, as one pass of \<open>frame_fixed_timed\<close> writes it), the
  three stretches of \<open>begin\<close> before the charge pumps, and the dummy lines of \<open>end\<close>.
  The replies are the bytes the controller shifts in at the transfers whose result
  \<open>begin\<close> tests, counted from the state in which \<open>begin\<close> is called: the two ID
  reads, the breakage read, and the status read of charge-pump attempt \<open>k\<close>.
\<close>

definition discharge_pulse_events :: "event list" where
  "discharge_pulse_events =
     [Ev_delay_ms 10, Ev_write EPD_Pin_DISCHARGE True,
      Ev_delay_ms 10, Ev_write EPD_Pin_DISCHARGE False]"

definition power_off_events :: "event list" where
  "power_off_events =
     [Ev_write EPD_Pin_RESET False, Ev_write EPD_Pin_PANEL_ON False,
      Ev_write EPD_Pin_BORDER False] @ SPI_off_events @ [Ev_write EPD_Pin_EPD_CS False] @
     concat (replicate 10 discharge_pulse_events)"

definition pump_cycle_events :: "event list" where
  "pump_cycle_events =
     SPI_send_events EPD_Pin_EPD_CS [0x70, 0x05] @ SPI_send_events EPD_Pin_EPD_CS [0x72, 0x01] @
     [Ev_delay_ms 240] @
     SPI_send_events EPD_Pin_EPD_CS [0x70, 0x05] @ SPI_send_events EPD_Pin_EPD_CS [0x72, 0x03] @
     [Ev_delay_ms 40] @
     SPI_send_events EPD_Pin_EPD_CS [0x70, 0x05] @ SPI_send_events EPD_Pin_EPD_CS [0x72, 0x0f] @
     [Ev_delay_ms 40] @
     SPI_send_events EPD_Pin_EPD_CS [0x70, 0x0f] @ SPI_send_events EPD_Pin_EPD_CS [0x73, 0x00]"

definition full_frame_events ::
  "EPD_Class \<Rightarrow> line_defaults \<Rightarrow> port \<Rightarrow> 8 word \<Rightarrow> event list" where
  "full_frame_events d h env fixed_value =
     concat (map (\<lambda>l. line_events d env (of_nat l) 0 fixed_value False
                          (default_stage h) (default_border_byte h))
               [0..<unat (lines_per_display d)])"

definition begin_power_up_events :: "event list" where
  "begin_power_up_events =
     [Ev_write EPD_Pin_RESET False, Ev_write EPD_Pin_PANEL_ON False,
      Ev_write EPD_Pin_DISCHARGE False, Ev_write EPD_Pin_BORDER False,
      Ev_write EPD_Pin_EPD_CS False] @ SPI_on_events @
     [Ev_delay_ms 5, Ev_write EPD_Pin_PANEL_ON True, Ev_delay_ms 10,
      Ev_write EPD_Pin_RESET True, Ev_write EPD_Pin_BORDER True, Ev_write EPD_Pin_EPD_CS True,
      Ev_delay_ms 5, Ev_write EPD_Pin_RESET False, Ev_delay_ms 5,
      Ev_write EPD_Pin_RESET True, Ev_delay_ms 5]"

definition begin_check_events :: "event list" where
  "begin_check_events =
     SPI_send_events EPD_Pin_EPD_CS [0x71, 0x00] @ SPI_send_events EPD_Pin_EPD_CS [0x71, 0x00] @
     SPI_send_events EPD_Pin_EPD_CS [0x70, 0x02] @ SPI_send_events EPD_Pin_EPD_CS [0x72, 0x40] @
     SPI_send_events EPD_Pin_EPD_CS [0x70, 0x0f] @ SPI_send_events EPD_Pin_EPD_CS [0x73, 0x00]"

definition begin_configure_events :: "EPD_Class \<Rightarrow> event list" where
  "begin_configure_events d =
     SPI_send_events EPD_Pin_EPD_CS [0x70, 0x0b] @ SPI_send_events EPD_Pin_EPD_CS [0x72, 0x02] @
     SPI_send_events EPD_Pin_EPD_CS [0x70, 0x01] @
     SPI_send_events EPD_Pin_EPD_CS (channel_select d) @
     SPI_send_events EPD_Pin_EPD_CS [0x70, 0x07] @ SPI_send_events EPD_Pin_EPD_CS [0x72, 0xd1] @
     SPI_send_events EPD_Pin_EPD_CS [0x70, 0x08] @ SPI_send_events EPD_Pin_EPD_CS [0x72, 0x02] @
     SPI_send_events EPD_Pin_EPD_CS [0x70, 0x09] @ SPI_send_events EPD_Pin_EPD_CS [0x72, 0xc2] @
     SPI_send_events EPD_Pin_EPD_CS [0x70, 0x04] @ SPI_send_events EPD_Pin_EPD_CS [0x72, 0x03] @
     SPI_send_events EPD_Pin_EPD_CS [0x70, 0x03] @ SPI_send_events EPD_Pin_EPD_CS [0x72, 0x01] @
     SPI_send_events EPD_Pin_EPD_CS [0x70, 0x03] @ SPI_send_events EPD_Pin_EPD_CS [0x72, 0x00] @
     [Ev_delay_ms 5]"

definition first_id_reply :: "port \<Rightarrow> hw \<Rightarrow> 8 word" where
  "first_id_reply env st = miso env (n_transfer st + 3)"

definition cog_id_reply :: "port \<Rightarrow> hw \<Rightarrow> 8 word" where
  "cog_id_reply env st = miso env (n_transfer st + 5)"

definition broken_panel_reply :: "port \<Rightarrow> hw \<Rightarrow> 8 word" where
  "broken_panel_reply env st = miso env (n_transfer st + 13)"

definition dc_state_reply :: "port \<Rightarrow> hw \<Rightarrow> nat \<Rightarrow> 8 word" where
  "dc_state_reply env st k = miso env (n_transfer st + 68 + 16 * k)"

definition end_dummy_events :: "EPD_Class \<Rightarrow> line_defaults \<Rightarrow> port \<Rightarrow> event list" where
  "end_dummy_events d h env =
     (if size_EPD d = EPD_2_7 then
        [Ev_delay_ms 25, Ev_write EPD_Pin_BORDER False, Ev_delay_ms 250,
         Ev_write EPD_Pin_BORDER True]
      else
        line_events d env 0x7fff 0 0x00 False EPD_normal 0xff @ [Ev_delay_ms 40] @
        line_events d env 0x7fff 0 0x00 False EPD_normal 0xaa @ [Ev_delay_ms 200] @
        line_events d env 0x7fff 0 0x00 False EPD_normal (default_border_byte h) @
        [Ev_delay_ms 25])"

text \<open>
  A board for the concrete instances: the busy line is always low, every transfer
  shifts in the same byte, the clock counts its calls, and flash holds the low byte of
  each address. \<open>raw_object\<close> is an object's storage before the constructor runs.
\<close>

definition still_port :: "8 word \<Rightarrow> port" where
  "still_port c =
     \<lparr>miso = (\<lambda>n. c), pin_input = (\<lambda>pin n. False), clock = (\<lambda>n. of_nat n),
      flash = (\<lambda>a. of_nat a), sram = (\<lambda>a. 0)\<rparr>"

definition hw_reset :: hw where
  "hw_reset = \<lparr>pin_level = (\<lambda>pin. False), trace = [], n_transfer = 0, n_read = 0, n_millis = 0\<rparr>"

definition raw_object :: EPD_Class where
  "raw_object =
     \<lparr>size_EPD = EPD_1_44, lines_per_display = 0, dots_per_line = 0, bytes_per_line = 0,
      bytes_per_scan = 0, channel_select = [], temperature_offset = 0,
      compensation = \<lparr>stage1_repeat = 0, stage1_step = 0, stage1_block = 0,
        stage2_repeat = 0, stage2_t1 = 0, stage2_t2 = 0,
        stage3_repeat = 0, stage3_step = 0, stage3_block = 0\<rparr>,
      status = EPD_OK\<rparr>"

definition plain_defaults :: line_defaults where
  "plain_defaults = \<lparr>default_stage = EPD_normal, default_border_byte = 0x00\<rparr>"

section \<open>Properties\<close>

subsection \<open>Events of the board operations\<close>

lemma emit_Nil [simp]: "emit [] st = st"
  by (simp add: emit_def)

lemma emit_append: "emit (xs @ ys) st = emit ys (emit xs st)"
  by (simp add: emit_def)

lemma emit_emit [simp]: "emit ys (emit xs st) = emit (xs @ ys) st"
  by (simp add: emit_def)

lemma trace_emit [simp]: "trace (emit evs st) = trace st @ evs"
  by (induction evs arbitrary: st rule: rev_induct)
     (simp_all add: emit_def emit1_def split: event.splits)

lemma n_read_emit [simp]: "n_read (emit evs st) = n_read st"
  by (induction evs arbitrary: st rule: rev_induct)
     (simp_all add: emit_def emit1_def split: event.splits)

lemma n_millis_emit [simp]: "n_millis (emit evs st) = n_millis st"
  by (induction evs arbitrary: st rule: rev_induct)
     (simp_all add: emit_def emit1_def split: event.splits)

lemma emit_n_read_update [simp]: "emit evs (st\<lparr>n_read := r\<rparr>) = (emit evs st)\<lparr>n_read := r\<rparr>"
  by (induction evs arbitrary: st rule: rev_induct)
     (simp_all add: emit_def emit1_def split: event.splits)

lemma digitalWrite_emit: "digitalWrite pin level st = emit [Ev_write pin level] st"
  by (simp add: digitalWrite_def emit_def emit1_def)

lemma Delay_ms_emit: "Delay_ms n st = emit [Ev_delay_ms n] st"
  by (simp add: Delay_ms_def emit_def emit1_def)

lemma Delay_us_emit: "Delay_us n st = emit [Ev_delay_us n] st"
  by (simp add: Delay_us_def emit_def emit1_def)

lemma SPI_call_emit: "SPI_call c st = emit [Ev_spi c] st"
  by (simp add: SPI_call_def emit_def emit1_def)

lemma SPI_put_emit: "SPI_put env c st = emit [Ev_transfer c] st"
  by (simp add: SPI_put_def SPI_transfer_def emit_def emit1_def)

lemmas prim_emit = digitalWrite_emit Delay_ms_emit Delay_us_emit SPI_call_emit SPI_put_emit

lemma SPI_send_loop_emit: "SPI_send_loop env buffer st = emit (map Ev_transfer buffer) st"
  by (induction buffer arbitrary: st) (simp_all add: SPI_put_emit)

lemma SPI_send_emit: "SPI_send env cs buffer st = emit (SPI_send_events cs buffer) st"
  by (simp add: SPI_send_def prim_emit SPI_send_loop_emit SPI_send_events_def)

lemma SPI_on_emit: "SPI_on env st = emit SPI_on_events st"
  by (simp add: SPI_on_def prim_emit SPI_on_events_def)

lemma SPI_off_emit: "SPI_off env st = emit SPI_off_events st"
  by (simp add: SPI_off_def prim_emit SPI_off_events_def)

lemma wait_while_high_aux:
  "\<not> pin_input env pin (n_read st + k) \<Longrightarrow>
   \<exists>j\<le>k. wait_while_high env pin st = Some (st\<lparr>n_read := n_read st + Suc j\<rparr>)"
proof (induction k arbitrary: st)
  case 0
  then show ?case
    by (subst wait_while_high.simps) (simp add: digitalRead_def)
next
  case (Suc k)
  show ?case
  proof (cases "pin_input env pin (n_read st)")
    case False
    then show ?thesis
      by (subst wait_while_high.simps) (auto simp add: digitalRead_def)
  next
    case True
    let ?st = "st\<lparr>n_read := Suc (n_read st)\<rparr>"
    from Suc.prems have "\<not> pin_input env pin (n_read ?st + k)" by simp
    from Suc.IH [OF this] obtain j where "j \<le> k"
      and "wait_while_high env pin ?st = Some (?st\<lparr>n_read := n_read ?st + Suc j\<rparr>)" by blast
    with True show ?thesis
      by (subst wait_while_high.simps) (auto simp add: digitalRead_def intro!: exI [of _ "Suc j"])
  qed
qed

lemma wait_while_high_returns:
  assumes "busy_clears env pin"
  shows "returns (wait_while_high env pin st) st []"
proof -
  from assms obtain m where "m \<ge> n_read st" "\<not> pin_input env pin m"
    unfolding busy_clears_def by blast
  then have "\<not> pin_input env pin (n_read st + (m - n_read st))" by simp
  from wait_while_high_aux [OF this] obtain j where
    "wait_while_high env pin st = Some (st\<lparr>n_read := n_read st + Suc j\<rparr>)" by blast
  then show ?thesis
    unfolding returns_def by (auto intro!: exI [of _ "Suc j"])
qed

lemma returns_Some: "returns (Some (emit evs st)) st evs"
  unfolding returns_def by (auto intro: exI [of _ 0])

lemma returns_bind:
  assumes "returns r st xs" and "\<And>st'. returns (f st') st' ys"
  shows "returns (r \<bind> f) st (xs @ ys)"
proof -
  from assms(1) obtain k where r: "r = Some ((emit xs st)\<lparr>n_read := n_read st + k\<rparr>)"
    unfolding returns_def by blast
  from assms(2) [of "(emit xs st)\<lparr>n_read := n_read st + k\<rparr>"] obtain j where
    "f ((emit xs st)\<lparr>n_read := n_read st + k\<rparr>) =
       Some ((emit ys ((emit xs st)\<lparr>n_read := n_read st + k\<rparr>))\<lparr>n_read := n_read st + k + j\<rparr>)"
    unfolding returns_def by auto
  with r show ?thesis
    unfolding returns_def by (auto intro!: exI [of _ "k + j"])
qed

lemma returns_emit:
  assumes "returns r (emit xs st) ys"
  shows "returns r st (xs @ ys)"
  using assms unfolding returns_def by simp

lemma SPI_put_wait_returns:
  assumes "busy_clears env pin"
  shows "returns (SPI_put_wait env c pin st) st [Ev_transfer c]"
  unfolding SPI_put_wait_def SPI_put_emit
  using wait_while_high_returns [OF assms, of "emit [Ev_transfer c] st"]
  by (rule returns_emit [where ys = "[]", simplified])


lemma read_data_emit:
  "read_data env pm a st = (mem_byte env pm a, emit [mem_event pm a] st)"
  by (simp add: read_data_def pgm_read_byte_near_def ram_read_def mem_byte_def mem_event_def
      emit_def emit1_def)

lemma odd_pixels_returns:
  assumes "busy_clears env EPD_Pin_BUSY"
  shows "returns (odd_pixels env data fv pm stage n st) st
           (concat (map (pixel_events odd_byte env data fv pm stage) (rev [0..<n])))"
proof (induction n arbitrary: st)
  case 0
  show ?case using returns_Some [of "[]" st] by simp
next
  case (Suc n)
  have step: "returns
     (if data \<noteq> 0 then
        (case read_data env pm (data + Suc n - 1) st of
           (byte, st) \<Rightarrow>
             let pixels = byte AND 0x55;
                 pixels = (case stage of
                             EPD_inverse \<Rightarrow> 0xaa OR (pixels XOR 0x55)
                           | EPD_normal \<Rightarrow> 0xaa OR pixels)
             in SPI_put_wait env pixels EPD_Pin_BUSY st)
      else SPI_put_wait env fv EPD_Pin_BUSY st) st (pixel_events odd_byte env data fv pm stage n)"
  proof (cases "data = 0")
    case True
    then show ?thesis
      using SPI_put_wait_returns [OF assms, of fv st] by (simp add: pixel_events_def)
  next
    case False
    then show ?thesis
      using SPI_put_wait_returns [OF assms, of "odd_byte stage (mem_byte env pm (data + n))"
          "emit [mem_event pm (data + n)] st", THEN returns_emit]
      by (simp add: pixel_events_def read_data_emit odd_byte_def split: EPD_stage.splits)
  qed
  show ?case
    using returns_bind [OF step Suc.IH] by simp
qed

lemma scan_line_returns:
  assumes "busy_clears env EPD_Pin_BUSY"
  shows "returns (scan_line env n sp sh b st) st
           (map (\<lambda>b. Ev_transfer (if sp = of_nat b then push_bit sh 0x03 else 0x00)) [b..<n])"
proof (induction "n - b" arbitrary: b st)
  case 0
  then show ?case using returns_Some [of "[]" st] by (simp add: scan_line.simps [of env n sp sh b])
next
  case (Suc k)
  then have lt: "b < n" and k: "k = n - Suc b" by simp_all
  have step: "returns
     (if sp = of_nat b
      then SPI_put_wait env (push_bit sh 0x03) EPD_Pin_BUSY st
      else SPI_put_wait env 0x00 EPD_Pin_BUSY st) st
     [Ev_transfer (if sp = of_nat b then push_bit sh 0x03 else 0x00)]"
    using SPI_put_wait_returns [OF assms] by simp
  show ?case
    using returns_bind [OF step Suc.hyps(1) [OF k]] lt
    by (simp add: upt_conv_Cons scan_line.simps [of env n sp sh b])
qed

lemma even_pixels_returns:
  assumes "busy_clears env EPD_Pin_BUSY"
  shows "returns (even_pixels env data fv pm stage n b st) st
           (concat (map (pixel_events even_byte env data fv pm stage) [b..<n]))"
proof (induction "n - b" arbitrary: b st)
  case 0
  then show ?case
    using returns_Some [of "[]" st] by (simp add: even_pixels.simps [of env data fv pm stage n b])
next
  case (Suc k)
  then have lt: "b < n" and k: "k = n - Suc b" by simp_all
  have step: "returns
     (if data \<noteq> 0 then
           (case read_data env pm (data + b) st of
              (byte, st) \<Rightarrow>
                let pixels = byte AND 0xaa;
                    pixels = (case stage of
                                EPD_inverse \<Rightarrow> 0xaa OR drop_bit 1 (pixels XOR 0xaa)
                              | EPD_normal \<Rightarrow> 0xaa OR drop_bit 1 pixels);
                    p1 = drop_bit 6 pixels AND 0x03;
                    p2 = drop_bit 4 pixels AND 0x03;
                    p3 = drop_bit 2 pixels AND 0x03;
                    p4 = drop_bit 0 pixels AND 0x03;
                    pixels = push_bit 0 p1 OR push_bit 2 p2 OR push_bit 4 p3 OR push_bit 6 p4
                in SPI_put_wait env pixels EPD_Pin_BUSY st)
         else SPI_put_wait env fv EPD_Pin_BUSY st) st (pixel_events even_byte env data fv pm stage b)"
  proof (cases "data = 0")
    case True
    then show ?thesis
      using SPI_put_wait_returns [OF assms, of fv st] by (simp add: pixel_events_def)
  next
    case False
    then show ?thesis
      using SPI_put_wait_returns [OF assms, of "even_byte stage (mem_byte env pm (data + b))"
          "emit [mem_event pm (data + b)] st", THEN returns_emit]
      by (simp add: pixel_events_def read_data_emit even_byte_def swap_pairs_def Let_def
          split: EPD_stage.splits)
  qed
  show ?case
    using returns_bind [OF step Suc.hyps(1) [OF k]] lt
    by (simp add: upt_conv_Cons even_pixels.simps [of env data fv pm stage n b])
qed

lemma line_returns:
  assumes "busy_clears env EPD_Pin_BUSY"
  shows "returns (line d env line_no data fv pm stage bb st) st
           (line_events d env line_no data fv pm stage bb)"
proof -
  have tail: "\<And>s. returns (Some (SPI_off env (SPI_send env EPD_Pin_EPD_CS [0x72, 0x07]
       (SPI_send env EPD_Pin_EPD_CS [0x70, 0x02] (digitalWrite EPD_Pin_EPD_CS True s))))) s
     ([Ev_write EPD_Pin_EPD_CS True] @
     SPI_send_events EPD_Pin_EPD_CS [0x70, 0x02] @ SPI_send_events EPD_Pin_EPD_CS [0x72, 0x07] @
     SPI_off_events)"
    using returns_Some by (simp add: SPI_off_emit SPI_send_emit digitalWrite_emit)
  note b1 = returns_bind [OF even_pixels_returns [OF assms, of data fv pm stage
        "unat (bytes_per_line d)" 0] tail]
  note b2 = returns_bind [OF scan_line_returns [OF assms, of "unat (bytes_per_scan d)"
        "(lines_per_display d - line_no - 1) div 4" "2 * unat (line_no AND 0x03)" 0] b1]
  note b3 = returns_bind [OF odd_pixels_returns [OF assms, of data fv pm stage
        "unat (bytes_per_line d)"] b2]
  note b4 = returns_bind [OF SPI_put_wait_returns [OF assms, of bb] b3]
  note b5 = returns_bind [OF SPI_put_wait_returns [OF assms, of "0x72"] b4]
  show ?thesis
    unfolding line_def line_events_def Let_def scan_byte_def
    using b5 [of "emit (SPI_on_events @ SPI_send_events EPD_Pin_EPD_CS [0x70, 0x0a] @
        [Ev_delay_us 10, Ev_write EPD_Pin_EPD_CS False]) st", THEN returns_emit]
    by (simp add: SPI_on_emit SPI_send_emit Delay_us_emit digitalWrite_emit SPI_off_emit)
qed

subsection \<open>Bits and words\<close>

lemma three_mask: "(3 :: 8 word) = mask 2"
  by (simp add: mask_eq_exp_minus_1)

lemma bit_swap_pairs:
  "bit (swap_pairs v) n \<longleftrightarrow> n < 8 \<and> bit v (6 - 2 * (n div 2) + n mod 2)"
proof -
  consider "n = 0" | "n = 1" | "n = 2" | "n = 3" | "n = 4" | "n = 5" | "n = 6" | "n = 7" | "8 \<le> n"
    by linarith
  then show ?thesis
    by cases (simp_all add: swap_pairs_def three_mask bit_simps flip: take_bit_eq_mask)
qed

lemma pair_of_swap_pairs: "i < 4 \<Longrightarrow> pair_of (swap_pairs v) i = pair_of v (3 - i)"
proof (rule bit_word_eqI)
  fix n
  assume i: "i < 4" and n: "n < LENGTH(8)"
  from i have eq: "2 * (3 - i) = 6 - 2 * i" by simp
  consider "n = 0" | "n = 1" | "2 \<le> n" by linarith
  then show "bit (pair_of (swap_pairs v) i) n = bit (pair_of v (3 - i)) n"
  proof cases
    case 1
    with i show ?thesis
      by (auto simp add: pair_of_def bit_simps bit_swap_pairs eq)
  next
    case 2
    with i show ?thesis
      by (auto simp add: pair_of_def bit_simps bit_swap_pairs eq) 
  next
    case 3
    then show ?thesis by (simp add: pair_of_def bit_simps)
  qed
qed

lemma scan_marker_nonzero: "k < 4 \<Longrightarrow> push_bit (2 * k) (3 :: 8 word) \<noteq> 0"
proof -
  assume "k < 4"
  then consider "k = 0" | "k = 1" | "k = 2" | "k = 3" by linarith
  then show ?thesis by cases simp_all
qed

lemma unat_and_3: "unat (l AND 3 :: 16 word) = unat l mod 4"
proof -
  have "l AND 3 = take_bit 2 l"
    by (simp add: take_bit_eq_mask mask_eq_exp_minus_1)
  then show ?thesis
    by (simp add: unsigned_take_bit_eq take_bit_eq_mod unat_mod)
qed

lemma sentinel_scan_pos: "((96 :: 16 word) - 0x7fff - 1) div 4 = 8216" "((176 :: 16 word) - 0x7fff - 1) div 4 = 8236"
  by simp_all

lemma word16_eq_of_nat: "b < 65536 \<Longrightarrow> (w :: 16 word) = of_nat b \<longleftrightarrow> unat w = b"
  by (auto simp add: unat_of_nat)

lemma scan_pos_unat:
  fixes l n :: "16 word"
  assumes "l < n"
  shows "unat ((n - l - 1) div 4) = (unat n - unat l - 1) div 4"
proof -
  from assms have "1 \<le> n - l"
    by (simp add: word_le_nat_alt word_less_nat_alt unat_sub)
  then have "unat (n - l - 1) = unat (n - l) - 1"
    by (simp add: unat_sub)
  also have "unat (n - l) = unat n - unat l"
    using assms by (simp add: unat_sub)
  finally show ?thesis by (simp add: unat_div)
qed

subsection \<open>The bytes of one scan line\<close>

lemma mosi_append [simp]: "mosi (xs @ ys) = mosi xs @ mosi ys"
  by (induction xs rule: mosi.induct) simp_all

lemma mosi_map_transfer [simp]: "mosi (map (\<lambda>b. Ev_transfer (f b)) xs) = map f xs"
  by (induction xs) simp_all

lemma mosi_pixel_events [simp]:
  "mosi (concat (map (pixel_events enc env data fv pm stage) xs)) =
     map (\<lambda>b. if data \<noteq> 0 then enc stage (mem_byte env pm (data + b)) else fv) xs"
  by (induction xs) (simp_all add: pixel_events_def mem_event_def)

lemma mosi_line_events:
  "mosi (line_events d env line_no data fv pm stage bb) =
     [0x00, 0x00, 0x70, 0x0a, 0x72, bb] @
     map (\<lambda>b. if data \<noteq> 0 then odd_byte stage (mem_byte env pm (data + b)) else fv)
       (rev [0..<unat (bytes_per_line d)]) @
     map (scan_byte (lines_per_display d) line_no) [0..<unat (bytes_per_scan d)] @
     map (\<lambda>b. if data \<noteq> 0 then even_byte stage (mem_byte env pm (data + b)) else fv)
       [0..<unat (bytes_per_line d)] @
     [0x70, 0x02, 0x72, 0x07, 0x00, 0x00]"
  by (simp add: line_events_def SPI_on_events_def SPI_off_events_def SPI_send_events_def)

lemma line_trace:
  assumes "busy_clears env EPD_Pin_BUSY"
  shows "\<exists>st'. line d env line_no data fv pm stage bb st = Some st' \<and>
     trace st' = trace st @ line_events d env line_no data fv pm stage bb"
  using line_returns [OF assms, of d line_no data fv pm stage bb st]
  unfolding returns_def by auto

lemma ctor_geometry:
  "(lines_per_display (EPD_Class_ctor sz u), bytes_per_scan (EPD_Class_ctor sz u)) =
     (case sz of EPD_2_7 \<Rightarrow> (176, 44) | _ \<Rightarrow> (96, 24))"
  by (cases sz) (simp_all add: EPD_Class_ctor_def setFactor_def Let_def)

lemma filter_single:
  assumes "i < n" and "v \<noteq> (0 :: 8 word)"
  shows "filter (\<lambda>c. c \<noteq> 0) ((replicate n 0)[i := v]) = [v]"
proof -
  have "(replicate n (0 :: 8 word))[i := v] = replicate i 0 @ v # replicate (n - Suc i) 0"
    using assms(1) by (simp add: upd_conv_take_nth_drop)
  then show ?thesis using assms(2) by simp
qed

lemma scan_bytes_in_range:
  fixes lines line_no :: "16 word"
  assumes "line_no < lines" and "unat lines \<le> 4 * n" and "n < 65536"
  shows "map (scan_byte lines line_no) [0..<n] =
     (replicate n 0x00)[(unat lines - unat line_no - 1) div 4 :=
        push_bit (2 * (unat line_no mod 4)) 0x03]"
proof (rule nth_equalityI)
  show "length (map (scan_byte lines line_no) [0..<n]) =
    length ((replicate n (0x00 :: 8 word))[(unat lines - unat line_no - 1) div 4 :=
        push_bit (2 * (unat line_no mod 4)) 0x03])" by simp
next
  fix b
  assume "b < length (map (scan_byte lines line_no) [0..<n])"
  then have b: "b < n" by simp
  with assms(3) have "b < 65536" by simp
  then have "((lines - line_no - 1) div 4 = of_nat b) = ((unat lines - unat line_no - 1) div 4 = b)"
    by (simp add: word16_eq_of_nat scan_pos_unat [OF assms(1)])
  with b show "map (scan_byte lines line_no) [0..<n] ! b =
    (replicate n 0x00)[(unat lines - unat line_no - 1) div 4 :=
        push_bit (2 * (unat line_no mod 4)) 0x03] ! b"
    by (auto simp add: scan_byte_def unat_and_3)
qed

lemma scan_bytes_sentinel:
  assumes "(lines - 0x7fff - 1) div 4 = (p :: 16 word)" and "n \<le> unat p" and "n < 65536"
  shows "map (scan_byte lines 0x7fff) [0..<n] = replicate n 0x00"
proof (rule nth_equalityI)
  show "length (map (scan_byte lines 0x7fff) [0..<n]) = length (replicate n (0x00 :: 8 word))"
    by simp
next
  fix b
  assume "b < length (map (scan_byte lines 0x7fff) [0..<n])"
  then have b: "b < n" by simp
  with assms have "p \<noteq> of_nat b"
    by (simp add: word16_eq_of_nat)
  with b assms(1) show "map (scan_byte lines 0x7fff) [0..<n] ! b = replicate n 0x00 ! b"
    by (simp add: scan_byte_def)
qed

lemma line_mosi:
  assumes "busy_clears env EPD_Pin_BUSY"
  shows "\<exists>st'. line d env line_no data fv pm stage bb st = Some st' \<and>
     mosi (drop (length (trace st)) (trace st')) =
       mosi (line_events d env line_no data fv pm stage bb)"
  using line_trace [OF assms, of d line_no data fv pm stage bb st] by auto

lemma map_shift_upt: "map (\<lambda>b. g (a + b)) [0..<n] = map g [a..<a + n]"
proof -
  have "map g [a..<a + n] = map g (map (\<lambda>b. b + a) [0..<n])"
    by (simp only: map_add_upt add.commute)
  then show ?thesis by (simp add: comp_def add.commute)
qed

text \<open>
  C2. For a driver object as the constructor leaves it and a line index below
  \<open>lines_per_display\<close>, the scan bytes that \<open>line\<close> shifts out (after the two idle
  bytes, the command, the border byte and the odd-pixel bytes) are all zero but one: the
  byte at index \<open>(lines_per_display - line - 1) div 4\<close> is \<open>0x03 << (2 * (line mod 4))\<close>.
  For the sentinel \<open>0x7fff\<close> all scan bytes are zero.
\<close>

theorem line_scan_activation:
  assumes busy: "busy_clears env EPD_Pin_BUSY"
    and d: "d = EPD_Class_ctor sz u"
    and idx: "line_no < lines_per_display d \<or> line_no = 0x7fff"
  shows "\<exists>st' odd scan even.
     line d env line_no data fixed_value read_progmem stage border_byte st = Some st' \<and>
     mosi (drop (length (trace st)) (trace st')) =
       [0x00, 0x00, 0x70, 0x0a, 0x72, border_byte] @ odd @ scan @ even @
       [0x70, 0x02, 0x72, 0x07, 0x00, 0x00] \<and>
     length odd = unat (bytes_per_line d) \<and>
     length scan = unat (bytes_per_scan d) \<and>
     length even = unat (bytes_per_line d) \<and>
     scan = (if line_no = 0x7fff then replicate (unat (bytes_per_scan d)) 0x00
             else (replicate (unat (bytes_per_scan d)) 0x00)
               [(unat (lines_per_display d) - unat line_no - 1) div 4 :=
                  push_bit (2 * (unat line_no mod 4)) 0x03]) \<and>
     length (filter (\<lambda>c. c \<noteq> 0x00) scan) = (if line_no = 0x7fff then 0 else 1)"
proof -
  let ?scan = "map (scan_byte (lines_per_display d) line_no) [0..<unat (bytes_per_scan d)]"
  let ?n = "unat (bytes_per_scan d)"
  let ?upd = "(replicate ?n (0x00 :: 8 word))
               [(unat (lines_per_display d) - unat line_no - 1) div 4 :=
                  push_bit (2 * (unat line_no mod 4)) 0x03]"
  from ctor_geometry [of sz u] d
  have geo: "(lines_per_display d = 96 \<and> bytes_per_scan d = 24) \<or>
             (lines_per_display d = 176 \<and> bytes_per_scan d = 44)"
    by (cases sz) simp_all
  have scan: "?scan = (if line_no = 0x7fff then replicate ?n 0x00 else ?upd)"
  proof (cases "line_no = 0x7fff")
    case True
    with geo show ?thesis
      by (auto intro: scan_bytes_sentinel [where p = 8216] scan_bytes_sentinel [where p = 8236])
  next
    case False
    with idx have lt: "line_no < lines_per_display d" by simp
    from geo have "unat (lines_per_display d) \<le> 4 * ?n" and "?n < 65536" by auto
    from scan_bytes_in_range [OF lt this] False show ?thesis by simp
  qed
  have one: "length (filter (\<lambda>c. c \<noteq> 0x00) ?scan) = (if line_no = 0x7fff then 0 else 1)"
  proof (cases "line_no = 0x7fff")
    case True
    with scan show ?thesis by simp
  next
    case False
    with idx have lt: "line_no < lines_per_display d" by simp
    then have "unat line_no < unat (lines_per_display d)"
      by (simp add: word_less_nat_alt)
    with geo have pos: "(unat (lines_per_display d) - unat line_no - 1) div 4 < ?n" by auto
    have "push_bit (2 * (unat line_no mod 4)) (0x03 :: 8 word) \<noteq> 0"
      by (rule scan_marker_nonzero) simp
    from filter_single [OF pos this] scan False show ?thesis by simp
  qed
  from line_mosi [OF busy, of d line_no data fixed_value read_progmem stage border_byte st]
  obtain st' where st': "line d env line_no data fixed_value read_progmem stage border_byte st = Some st'"
    and m: "mosi (drop (length (trace st)) (trace st')) =
       mosi (line_events d env line_no data fixed_value read_progmem stage border_byte)"
    by blast
  show ?thesis
    apply (rule exI [of _ st'])
    apply (rule exI [of _ "map (\<lambda>b. if data \<noteq> 0
        then odd_byte stage (mem_byte env read_progmem (data + b)) else fixed_value)
       (rev [0..<unat (bytes_per_line d)])"])
    apply (rule exI [of _ ?scan])
    apply (rule exI [of _ "map (\<lambda>b. if data \<noteq> 0
        then even_byte stage (mem_byte env read_progmem (data + b)) else fixed_value)
       [0..<unat (bytes_per_line d)]"])
    using st' m scan one by (simp add: mosi_line_events)
qed

theorem line_scan_activation_witness:
  "busy_clears (still_port 0) EPD_Pin_BUSY \<and>
   (5 :: 16 word) < lines_per_display (EPD_Class_ctor EPD_2_0 raw_object) \<and>
   (\<exists>st' odd scan even.
     line (EPD_Class_ctor EPD_2_0 raw_object) (still_port 0) 5 0 0xff False EPD_normal 0x00 hw_reset = Some st' \<and>
     mosi (drop (length (trace hw_reset)) (trace st')) =
       [0x00, 0x00, 0x70, 0x0a, 0x72, 0x00] @ odd @ scan @ even @
       [0x70, 0x02, 0x72, 0x07, 0x00, 0x00] \<and>
     length odd = unat (bytes_per_line (EPD_Class_ctor EPD_2_0 raw_object)) \<and>
     length scan = unat (bytes_per_scan (EPD_Class_ctor EPD_2_0 raw_object)) \<and>
     length even = unat (bytes_per_line (EPD_Class_ctor EPD_2_0 raw_object)) \<and>
     scan = (if (5 :: 16 word) = 0x7fff
             then replicate (unat (bytes_per_scan (EPD_Class_ctor EPD_2_0 raw_object))) 0x00
             else (replicate (unat (bytes_per_scan (EPD_Class_ctor EPD_2_0 raw_object))) 0x00)
               [(unat (lines_per_display (EPD_Class_ctor EPD_2_0 raw_object)) - unat (5 :: 16 word) - 1) div 4 :=
                  push_bit (2 * (unat (5 :: 16 word) mod 4)) 0x03]) \<and>
     length (filter (\<lambda>c. c \<noteq> 0x00) scan) = (if (5 :: 16 word) = 0x7fff then 0 else 1))"
proof -
  have h1: "busy_clears (still_port 0) EPD_Pin_BUSY"
    by (auto simp add: busy_clears_def still_port_def)
  have h2: "(5 :: 16 word) < lines_per_display (EPD_Class_ctor EPD_2_0 raw_object)"
    using ctor_geometry [of EPD_2_0 raw_object] by simp
  from line_scan_activation [OF h1 refl disjI1 [OF h2],
      where data = 0 and fixed_value = "0xff" and read_progmem = False and stage = EPD_normal
        and border_byte = "0x00" and st = hw_reset] h1 h2
  show ?thesis by (intro conjI) assumption+
qed

text \<open>
  C3. With a data pointer, the odd-pixel bytes that \<open>line\<close> shifts out after the
  border byte are the bytes of the input line taken from the last to the first, each
  encoded as \<open>0xAA | (x & 0x55)\<close> in the normal stage and as
  \<open>0xAA | ((x & 0x55) ^ 0x55)\<close> in the inverse stage.
\<close>

theorem line_odd_pixels:
  assumes busy: "busy_clears env EPD_Pin_BUSY"
    and data: "data \<noteq> 0"
  shows "\<exists>st' rest.
     line d env line_no data fixed_value read_progmem stage border_byte st = Some st' \<and>
     mosi (drop (length (trace st)) (trace st')) =
       [0x00, 0x00, 0x70, 0x0a, 0x72, border_byte] @
       map (\<lambda>x. case stage of
                  EPD_normal \<Rightarrow> 0xAA OR (x AND 0x55)
                | EPD_inverse \<Rightarrow> 0xAA OR ((x AND 0x55) XOR 0x55))
         (rev (map (mem_byte env read_progmem) [data..<data + unat (bytes_per_line d)])) @
       rest \<and>
     length rest = unat (bytes_per_scan d) + unat (bytes_per_line d) + 6"
proof -
  let ?enc = "\<lambda>x. case stage of
                  EPD_normal \<Rightarrow> 0xAA OR (x AND 0x55)
                | EPD_inverse \<Rightarrow> 0xAA OR ((x AND 0x55) XOR (0x55 :: 8 word))"
  have enc: "odd_byte stage = ?enc"
    by (rule ext) (simp add: odd_byte_def split: EPD_stage.splits)
  have "map (\<lambda>b. odd_byte stage (mem_byte env read_progmem (data + b)))
          (rev [0..<unat (bytes_per_line d)]) =
        map (odd_byte stage) (rev (map (\<lambda>b. mem_byte env read_progmem (data + b))
          [0..<unat (bytes_per_line d)]))"
    by (simp add: rev_map comp_def)
  also have "\<dots> = map ?enc
         (rev (map (mem_byte env read_progmem) [data..<data + unat (bytes_per_line d)]))"
    by (simp only: map_shift_upt enc)
  finally have odd: "map (\<lambda>b. odd_byte stage (mem_byte env read_progmem (data + b)))
          (rev [0..<unat (bytes_per_line d)]) = map ?enc
         (rev (map (mem_byte env read_progmem) [data..<data + unat (bytes_per_line d)]))" .
  from line_mosi [OF busy, of d line_no data fixed_value read_progmem stage border_byte st]
  obtain st' where st': "line d env line_no data fixed_value read_progmem stage border_byte st = Some st'"
    and m: "mosi (drop (length (trace st)) (trace st')) =
       mosi (line_events d env line_no data fixed_value read_progmem stage border_byte)"
    by blast
  show ?thesis
    apply (rule exI [of _ st'])
    apply (rule exI [of _ "map (scan_byte (lines_per_display d) line_no) [0..<unat (bytes_per_scan d)] @
       map (\<lambda>b. even_byte stage (mem_byte env read_progmem (data + b)))
         [0..<unat (bytes_per_line d)] @ [0x70, 0x02, 0x72, 0x07, 0x00, 0x00]"])
    using st' m data odd by (simp add: mosi_line_events)
qed

theorem line_odd_pixels_witness:
  "busy_clears (still_port 0) EPD_Pin_BUSY \<and> (64 :: nat) \<noteq> 0 \<and>
   (\<exists>st' rest.
     line (EPD_Class_ctor EPD_1_44 raw_object) (still_port 0) 3 64 0x00 True EPD_inverse 0x00 hw_reset = Some st' \<and>
     mosi (drop (length (trace hw_reset)) (trace st')) =
       [0x00, 0x00, 0x70, 0x0a, 0x72, 0x00] @
       map (\<lambda>x. case EPD_inverse of
                  EPD_normal \<Rightarrow> 0xAA OR (x AND 0x55)
                | EPD_inverse \<Rightarrow> 0xAA OR ((x AND 0x55) XOR 0x55))
         (rev (map (mem_byte (still_port 0) True)
            [64..<64 + unat (bytes_per_line (EPD_Class_ctor EPD_1_44 raw_object))])) @
       rest \<and>
     length rest = unat (bytes_per_scan (EPD_Class_ctor EPD_1_44 raw_object)) +
       unat (bytes_per_line (EPD_Class_ctor EPD_1_44 raw_object)) + 6)"
proof -
  have h1: "busy_clears (still_port 0) EPD_Pin_BUSY"
    by (auto simp add: busy_clears_def still_port_def)
  have h2: "(64 :: nat) \<noteq> 0" by simp
  from line_odd_pixels [OF h1 h2,
      where d = "EPD_Class_ctor EPD_1_44 raw_object" and line_no = 3 and fixed_value = "0x00"
        and read_progmem = True and stage = EPD_inverse and border_byte = "0x00" and st = hw_reset]
    h1 h2
  show ?thesis by (intro conjI) assumption+
qed

text \<open>
  C4. With a data pointer, the even-pixel bytes are the last \<open>bytes_per_line\<close> bytes
  of the line transaction, one for each byte of the input line from the first to the
  last: the input byte is masked with \<open>0xAA\<close>, turned into
  \<open>0xAA | ((masked ^ 0xAA) >> 1)\<close> in the inverse stage and into
  \<open>0xAA | (masked >> 1)\<close> in the normal stage, and the byte sent has the four bit
  pairs of that value in reverse order.
\<close>

theorem line_even_pixels:
  assumes busy: "busy_clears env EPD_Pin_BUSY"
    and data: "data \<noteq> 0"
  shows "\<exists>st' front even.
     line d env line_no data fixed_value read_progmem stage border_byte st = Some st' \<and>
     mosi (drop (length (trace st)) (trace st')) =
       front @ even @ [0x70, 0x02, 0x72, 0x07, 0x00, 0x00] \<and>
     length front = 6 + unat (bytes_per_line d) + unat (bytes_per_scan d) \<and>
     list_all2
       (\<lambda>x e. pairs_reversed
          (case stage of
             EPD_inverse \<Rightarrow> 0xAA OR drop_bit 1 ((x AND 0xAA) XOR 0xAA)
           | EPD_normal \<Rightarrow> 0xAA OR drop_bit 1 (x AND 0xAA)) e)
       (map (mem_byte env read_progmem) [data..<data + unat (bytes_per_line d)]) even"
proof -
  let ?pre = "\<lambda>x. case stage of
             EPD_inverse \<Rightarrow> 0xAA OR drop_bit 1 ((x AND 0xAA) XOR (0xAA :: 8 word))
           | EPD_normal \<Rightarrow> 0xAA OR drop_bit 1 (x AND 0xAA)"
  let ?input = "map (mem_byte env read_progmem) [data..<data + unat (bytes_per_line d)]"
  have ev: "map (\<lambda>b. even_byte stage (mem_byte env read_progmem (data + b)))
          [0..<unat (bytes_per_line d)] = map (even_byte stage) ?input"
    using map_shift_upt [of "\<lambda>a. even_byte stage (mem_byte env read_progmem a)" data
        "unat (bytes_per_line d)"] by (simp add: comp_def)
  have rv: "pairs_reversed (?pre x) (even_byte stage x)" for x
    unfolding pairs_reversed_def even_byte_def
    by (auto simp add: pair_of_swap_pairs split: EPD_stage.splits)
  have "list_all2 (\<lambda>x e. pairs_reversed (?pre x) e) xs (map (even_byte stage) xs)" for xs
    by (induction xs) (simp_all add: rv)
  then have all: "list_all2 (\<lambda>x e. pairs_reversed (?pre x) e) ?input (map (even_byte stage) ?input)" .
  from line_mosi [OF busy, of d line_no data fixed_value read_progmem stage border_byte st]
  obtain st' where st': "line d env line_no data fixed_value read_progmem stage border_byte st = Some st'"
    and m: "mosi (drop (length (trace st)) (trace st')) =
       mosi (line_events d env line_no data fixed_value read_progmem stage border_byte)"
    by blast
  show ?thesis
    apply (rule exI [of _ st'])
    apply (rule exI [of _ "[0x00, 0x00, 0x70, 0x0a, 0x72, border_byte] @
       map (\<lambda>b. odd_byte stage (mem_byte env read_progmem (data + b)))
         (rev [0..<unat (bytes_per_line d)]) @
       map (scan_byte (lines_per_display d) line_no) [0..<unat (bytes_per_scan d)]"])
    apply (rule exI [of _ "map (even_byte stage) ?input"])
    using st' m data ev all by (simp add: mosi_line_events)
qed

theorem line_even_pixels_witness:
  "busy_clears (still_port 0) EPD_Pin_BUSY \<and> (64 :: nat) \<noteq> 0 \<and>
   (\<exists>st' front even.
     line (EPD_Class_ctor EPD_2_7 raw_object) (still_port 0) 3 64 0x00 True EPD_normal 0x00 hw_reset = Some st' \<and>
     mosi (drop (length (trace hw_reset)) (trace st')) =
       front @ even @ [0x70, 0x02, 0x72, 0x07, 0x00, 0x00] \<and>
     length front = 6 + unat (bytes_per_line (EPD_Class_ctor EPD_2_7 raw_object)) +
       unat (bytes_per_scan (EPD_Class_ctor EPD_2_7 raw_object)) \<and>
     list_all2
       (\<lambda>x e. pairs_reversed
          (case EPD_normal of
             EPD_inverse \<Rightarrow> 0xAA OR drop_bit 1 ((x AND 0xAA) XOR 0xAA)
           | EPD_normal \<Rightarrow> 0xAA OR drop_bit 1 (x AND 0xAA)) e)
       (map (mem_byte (still_port 0) True)
          [64..<64 + unat (bytes_per_line (EPD_Class_ctor EPD_2_7 raw_object))]) even)"
proof -
  have h1: "busy_clears (still_port 0) EPD_Pin_BUSY"
    by (auto simp add: busy_clears_def still_port_def)
  have h2: "(64 :: nat) \<noteq> 0" by simp
  from line_even_pixels [OF h1 h2,
      where d = "EPD_Class_ctor EPD_2_7 raw_object" and line_no = 3 and fixed_value = "0x00"
        and read_progmem = True and stage = EPD_normal and border_byte = "0x00" and st = hw_reset]
    h1 h2
  show ?thesis by (intro conjI) assumption+
qed

subsection \<open>The sweep of stage 1 and stage 3\<close>

lemma run_all_append: "run_all (fs @ gs) st = run_all fs st \<bind> run_all gs"
proof (induction fs arbitrary: st)
  case Nil
  show ?case by simp
next
  case (Cons f fs)
  have "run_all (fs @ gs) = (\<lambda>st. run_all fs st \<bind> run_all gs)"
    by (rule ext) (rule Cons.IH)
  then show ?case by simp
qed

lemma sweep_block_run:
  "sweep_block body block n l offset st =
     run_all (map (\<lambda>offset. body n offset (l + offset)) [offset..block - 1]) st"
proof (induction "nat (block - offset)" arbitrary: offset st)
  case 0
  then show ?case by (simp add: sweep_block.simps [of body block n l offset])
next
  case (Suc k)
  then have lt: "offset < block" and k: "k = nat (block - (offset + 1))" by linarith+
  from lt have "[offset..block - 1] = offset # [offset + 1..block - 1]"
    by (simp add: upto_rec1)
  moreover have "sweep_block body block n l (offset + 1) =
      run_all (map (\<lambda>offset. body n offset (l + offset)) [offset + 1..block - 1])"
    by (rule ext) (rule Suc.hyps(1) [OF k])
  ultimately show ?case
    using lt by (simp add: sweep_block.simps [of body block n l offset] Let_def)
qed

lemma stripes_unfold:
  assumes "0 < step"
  shows "stripes step limit start =
     (if start < limit then start # stripes step limit (start + step) else [])"
proof (cases "start < limit")
  case False
  then have "\<not> step \<le> limit - start + step - 1" by simp
  then have "\<not> 0 < (limit - start + step - 1) div step"
    using assms by (simp only: pos_imp_zdiv_pos_iff not_False_eq_True)
  then have "(limit - start + step - 1) div step \<le> 0" by simp
  with False show ?thesis by (simp add: stripes_def)
next
  case True
  let ?m = "nat ((limit - (start + step) + step - 1) div step)"
  have "(limit - start + step - 1) div step = (limit - start - 1) div step + 1"
    using assms by (metis add_diff_eq diff_add_eq div_add_self2 less_irrefl) 
  moreover have "0 \<le> (limit - start - 1) div step"
    using True assms by (simp add: pos_imp_zdiv_nonneg_iff)
  ultimately have cnt: "nat ((limit - start + step - 1) div step) = Suc ?m"
    by (simp add: nat_add_distrib algebra_simps)
  have "map (\<lambda>k. start + int k * step) [0..<Suc ?m] =
        start # map (\<lambda>k. start + step + int k * step) [0..<?m]"
    by (simp add: upt_conv_Cons map_Suc_upt [symmetric] algebra_simps del: upt_Suc)
  with True cnt show ?thesis by (simp add: stripes_def)
qed

lemma sweep_lines_run:
  assumes "0 < step"
  shows "sweep_lines body step block total_lines n l st =
     run_all (concat (map (\<lambda>l. map (\<lambda>offset. body n offset (l + offset)) [0..block - 1])
       (stripes step (total_lines + step) l))) st"
proof (induction "nat (total_lines + step - l)" arbitrary: l st rule: less_induct)
  case less
  show ?case
  proof (cases "l < total_lines + step")
    case False
    then show ?thesis
      by (subst sweep_lines.simps) (simp add: stripes_unfold [OF assms, of _ l])
  next
    case True
    with assms have "nat (total_lines + step - (l + step)) < nat (total_lines + step - l)"
      by linarith
    from less [OF this]
    have "sweep_lines body step block total_lines n (l + step) =
      run_all (concat (map (\<lambda>l. map (\<lambda>offset. body n offset (l + offset)) [0..block - 1])
       (stripes step (total_lines + step) (l + step))))"
      by (rule ext)
    with True show ?thesis
      by (subst sweep_lines.simps)
        (simp add: stripes_unfold [OF assms, of _ l] run_all_append sweep_block_run)
  qed
qed

lemma sweep_repeat_run:
  assumes "0 < step"
  shows "sweep_repeat body repeat step block total_lines n st =
     run_all (concat (map (\<lambda>n. concat (map (\<lambda>l. map (\<lambda>offset. body n offset (l + offset)) [0..block - 1])
       (stripes step (total_lines + step) (step - block)))) [n..repeat - 1])) st"
proof (induction "nat (repeat - n)" arbitrary: n st)
  case 0
  then show ?case by (simp add: sweep_repeat.simps [of body repeat step block total_lines n])
next
  case (Suc k)
  then have lt: "n < repeat" and k: "k = nat (repeat - (n + 1))" by linarith+
  from lt have "[n..repeat - 1] = n # [n + 1..repeat - 1]"
    by (simp add: upto_rec1)
  moreover have "sweep_repeat body repeat step block total_lines (n + 1) =
     run_all (concat (map (\<lambda>n. concat (map (\<lambda>l. map (\<lambda>offset. body n offset (l + offset)) [0..block - 1])
       (stripes step (total_lines + step) (step - block)))) [n + 1..repeat - 1]))"
    by (rule ext) (rule Suc.hyps(1) [OF k])
  ultimately show ?case
    using lt by (simp add: sweep_repeat.simps [of body repeat step block total_lines n]
        run_all_append sweep_lines_run [OF assms])
qed

lemma sweep_repeat_order:
  assumes "0 < step"
  shows "sweep_repeat body repeat step block total_lines 0 st =
     run_all (map (\<lambda>(n, l, offset). body n offset (l + offset))
       (sweep_order repeat step block total_lines)) st"
  by (simp add: sweep_repeat_run [OF assms] sweep_order_def map_concat comp_def)

lemma run_all_returns:
  assumes "\<And>x st. returns (f x st) st (ev x)"
  shows "returns (run_all (map f xs) st) st (concat (map ev xs))"
proof (induction xs arbitrary: st)
  case Nil
  show ?case using returns_Some [of "[]" st] by simp
next
  case (Cons x xs)
  show ?case
    using returns_bind [OF assms [of x st], of "run_all (map f xs)", OF Cons.IH] by simp
qed

lemma frame_fixed_13_body_returns:
  assumes "busy_clears env EPD_Pin_BUSY"
  shows "returns (frame_fixed_13_body d h env value stage repeat total_lines n offset (l + offset) st) st
     (sweep_policy (flush_line_events d h env) (blank_line_events d h env)
        (fixed_line_events d h env value stage) repeat total_lines (n, l, offset))"
  unfolding frame_fixed_13_body_def sweep_policy_def flush_line_events_def blank_line_events_def
    fixed_line_events_def
  using line_returns [OF assms] by auto

lemma frame_data_13_body_returns:
  assumes "busy_clears env EPD_Pin_BUSY"
  shows "returns (frame_data_13_body d h env img stage repeat total_lines n offset (l + offset) st) st
     (sweep_policy (flush_line_events d h env) (blank_line_events d h env)
        (data_line_events d h env img stage) repeat total_lines (n, l, offset))"
  unfolding frame_data_13_body_def sweep_policy_def flush_line_events_def blank_line_events_def
    data_line_events_def
  using line_returns [OF assms] by auto

lemma frame_fixed_13_returns:
  assumes "busy_clears env EPD_Pin_BUSY"
    and "stage_sweep d stage = (repeat, step, block)" and "0 < step"
  shows "returns (frame_fixed_13 d h env value stage st) st
     (concat (map (sweep_policy (flush_line_events d h env) (blank_line_events d h env)
        (fixed_line_events d h env value stage) repeat (uint (lines_per_display d)))
        (sweep_order repeat step block (uint (lines_per_display d)))))"
proof -
  have "returns (run_all (map (\<lambda>(n, l, offset).
      frame_fixed_13_body d h env value stage repeat (uint (lines_per_display d)) n offset (l + offset))
        (sweep_order repeat step block (uint (lines_per_display d)))) st) st
     (concat (map (sweep_policy (flush_line_events d h env) (blank_line_events d h env)
        (fixed_line_events d h env value stage) repeat (uint (lines_per_display d)))
        (sweep_order repeat step block (uint (lines_per_display d)))))"
    by (rule run_all_returns) (use frame_fixed_13_body_returns [OF assms(1)] in auto)
  then show ?thesis
    by (simp add: frame_fixed_13_def assms(2) sweep_repeat_order [OF assms(3)] Let_def)
qed

lemma frame_data_13_returns:
  assumes "busy_clears env EPD_Pin_BUSY"
    and "stage_sweep d stage = (repeat, step, block)" and "0 < step"
  shows "returns (frame_data_13 d h env img stage st) st
     (concat (map (sweep_policy (flush_line_events d h env) (blank_line_events d h env)
        (data_line_events d h env img stage) repeat (uint (lines_per_display d)))
        (sweep_order repeat step block (uint (lines_per_display d)))))"
proof -
  have "returns (run_all (map (\<lambda>(n, l, offset).
      frame_data_13_body d h env img stage repeat (uint (lines_per_display d)) n offset (l + offset))
        (sweep_order repeat step block (uint (lines_per_display d)))) st) st
     (concat (map (sweep_policy (flush_line_events d h env) (blank_line_events d h env)
        (data_line_events d h env img stage) repeat (uint (lines_per_display d)))
        (sweep_order repeat step block (uint (lines_per_display d)))))"
    by (rule run_all_returns) (use frame_data_13_body_returns [OF assms(1)] in auto)
  then show ?thesis
    by (simp add: frame_data_13_def assms(2) sweep_repeat_order [OF assms(3)] Let_def)
qed

lemma set_sweep_order:
  "(n, l, offset) \<in> set (sweep_order repeat step block total_lines) \<longleftrightarrow>
     0 \<le> n \<and> n < repeat \<and> l \<in> set (stripes step (total_lines + step) (step - block)) \<and>
     0 \<le> offset \<and> offset < block"
proof -
  have "set (sweep_order repeat step block total_lines) =
    {0..repeat - 1} \<times> set (stripes step (total_lines + step) (step - block)) \<times> {0..block - 1}"
    unfolding sweep_order_def by (auto simp add: image_iff)
  then show ?thesis by auto
qed

lemma sweep_order_covers:
  assumes "0 < step" "step \<le> block" "0 < repeat" "0 \<le> p" "p < total_lines"
  shows "\<exists>(n, l, offset) \<in> set (sweep_order repeat step block total_lines). l + offset = p"
proof -
  let ?x = "p + block - step"
  let ?k = "nat (?x div step)"
  let ?l = "step - block + int ?k * step"
  from assms have x: "0 \<le> ?x" by simp
  with assms(1) have kn: "0 \<le> ?x div step"
    by (simp add: pos_imp_zdiv_nonneg_iff)
  then have k: "int ?k = ?x div step" by simp
  have "?x + step \<le> total_lines + block + step - 1" using assms by simp
  then have "(?x + step) div step \<le> (total_lines + block + step - 1) div step"
    using assms(1) by (simp add: zdiv_mono1)
  moreover have "(?x + step) div step = ?x div step + 1"
    using assms(1) div_add_self2 [of step ?x] by simp
  ultimately have "?x div step < (total_lines + block + step - 1) div step"
    by linarith
  with kn have "?k < nat ((total_lines + block + step - 1) div step)"
    by linarith
  moreover have "total_lines + step - (step - block) + step - 1 = total_lines + block + step - 1"
    by simp
  ultimately have "?k < nat ((total_lines + step - (step - block) + step - 1) div step)"
    by (simp only:)
  then have l: "?l \<in> set (stripes step (total_lines + step) (step - block))"
    unfolding stripes_def by (auto intro!: image_eqI [where x = ?k])
  have off: "p - ?l = ?x mod step"
    using k by (simp add: algebra_simps minus_div_mult_eq_mod [symmetric])
  have "0 \<le> ?x mod step" and "?x mod step < step"
    using assms(1) by simp_all
  with off assms(2) have "0 \<le> p - ?l" and "p - ?l < block"
    by linarith+
  with l assms(3) have "(0, ?l, p - ?l) \<in> set (sweep_order repeat step block total_lines)"
    by (simp add: set_sweep_order)
  then show ?thesis by force
qed

lemma size_EPD_setFactor [simp]: "size_EPD (setFactor t d) = size_EPD d"
  by (simp add: setFactor_def Let_def split: EPD_size.splits)

lemma setFactor_offset:
  "temperature_offset (setFactor t d) = (if t < 10 then 0 else if t \<le> 40 then 1 else 2)"
  by (simp add: setFactor_def Let_def split: EPD_size.splits)

lemma setFactor_compensation:
  "compensation (setFactor t d) =
     (case size_EPD d of
        EPD_1_44 \<Rightarrow> compensation_144
      | EPD_2_0 \<Rightarrow> compensation_200
      | EPD_2_7 \<Rightarrow> compensation_270) ! temperature_offset (setFactor t d)"
  by (simp add: setFactor_def Let_def split: EPD_size.splits)

lemma size_EPD_ctor [simp]: "size_EPD (EPD_Class_ctor sz u) = sz"
  by (cases sz) (simp_all add: EPD_Class_ctor_def Let_def)

lemma band_cases:
  "compensation (setFactor t (EPD_Class_ctor sz u)) \<in>
     set compensation_144 \<union> set compensation_200 \<union> set compensation_270"
  by (cases sz) (simp_all add: setFactor_compensation setFactor_offset
      compensation_144_def compensation_200_def compensation_270_def)

lemma band_sweep:
  assumes "stage_sweep (setFactor t (EPD_Class_ctor sz u)) stage = (repeat, step, block)"
  shows "0 < step \<and> step \<le> block \<and> 0 < repeat"
  using assms band_cases [of t sz u]
  by (cases stage)
    (auto simp add: stage_sweep_def compensation_144_def compensation_200_def compensation_270_def)

lemma still_port_busy_clears: "busy_clears (still_port c) pin"
  by (auto simp add: busy_clears_def still_port_def)

lemma returns_trace:
  assumes "returns r st evs"
  shows "\<exists>st'. r = Some st' \<and> trace st' = trace st @ evs"
  using assms unfolding returns_def by auto

text \<open>
  C1. For every panel size, temperature and stage, with the sweep parameters of the band
  that \<open>setFactor\<close> selected: \<open>frame_fixed_13\<close> and \<open>frame_data_13\<close> return, and what
  they do to the board is one call of \<open>line\<close> for each position of the sweep, in the
  order of the three loops (passes, then stripes from \<open>step - block\<close> in steps of
  \<open>step\<close> below \<open>total_lines + step\<close>, then \<open>block\<close> offsets). The call is the flush line
  (index \<open>0x7fff\<close>, fixed value 0, normal stage) when the position lies outside
  \<open>[0, total_lines]\<close>, the blanking line (fixed value 0, normal stage) at offset 0 of the
  last pass, and the fixed value or the image scan line under the requested stage
  otherwise. Every line index below \<open>total_lines\<close> is the position of some call.
\<close>

theorem frame_13_sweep:
  assumes busy: "busy_clears env EPD_Pin_BUSY"
    and d: "d = setFactor t (EPD_Class_ctor sz u)"
    and sw: "stage_sweep d stage = (repeat, step, block)"
    and tl: "total_lines = uint (lines_per_display d)"
  shows
    "(\<exists>st'. frame_fixed_13 d h env fixed_value stage st = Some st' \<and>
        trace st' = trace st @
          concat (map (sweep_policy (flush_line_events d h env) (blank_line_events d h env)
                         (fixed_line_events d h env fixed_value stage) repeat total_lines)
                    (sweep_order repeat step block total_lines))) \<and>
     (\<exists>st'. frame_data_13 d h env img stage st = Some st' \<and>
        trace st' = trace st @
          concat (map (sweep_policy (flush_line_events d h env) (blank_line_events d h env)
                         (data_line_events d h env img stage) repeat total_lines)
                    (sweep_order repeat step block total_lines))) \<and>
     (\<forall>p\<in>{0..<total_lines}.
        \<exists>(n, l, offset)\<in>set (sweep_order repeat step block total_lines). l + offset = p)"
proof -
  from sw d have band: "0 < step \<and> step \<le> block \<and> 0 < repeat"
    using band_sweep [of t sz u stage repeat step block] by simp
  then have step: "0 < step" by simp
  have fixed: "\<exists>st'. frame_fixed_13 d h env fixed_value stage st = Some st' \<and>
        trace st' = trace st @
          concat (map (sweep_policy (flush_line_events d h env) (blank_line_events d h env)
                         (fixed_line_events d h env fixed_value stage) repeat total_lines)
                    (sweep_order repeat step block total_lines))"
    unfolding tl by (rule returns_trace) (rule frame_fixed_13_returns [OF busy sw step])
  have data: "\<exists>st'. frame_data_13 d h env img stage st = Some st' \<and>
        trace st' = trace st @
          concat (map (sweep_policy (flush_line_events d h env) (blank_line_events d h env)
                         (data_line_events d h env img stage) repeat total_lines)
                    (sweep_order repeat step block total_lines))"
    unfolding tl by (rule returns_trace) (rule frame_data_13_returns [OF busy sw step])
  have cover: "\<forall>p\<in>{0..<total_lines}.
        \<exists>(n, l, offset)\<in>set (sweep_order repeat step block total_lines). l + offset = p"
  proof
    fix p
    assume "p \<in> {0..<total_lines}"
    then have "0 \<le> p" and "p < total_lines" by simp_all
    with band show "\<exists>(n, l, offset)\<in>set (sweep_order repeat step block total_lines). l + offset = p"
      by (intro sweep_order_covers) simp_all
  qed
  from fixed data cover show ?thesis by (intro conjI)
qed

lemma ctor_144_sweep:
  "stage_sweep (setFactor 25 (EPD_Class_ctor EPD_1_44 raw_object)) EPD_inverse = (4, 2, 16)"
  by (simp add: stage_sweep_def setFactor_compensation setFactor_offset compensation_144_def)

lemma ctor_144_lines: "(96 :: int) = uint (lines_per_display (setFactor 25 (EPD_Class_ctor EPD_1_44 raw_object)))"
  by (simp add: setFactor_def EPD_Class_ctor_def Let_def)

theorem frame_13_sweep_witness:
  "busy_clears (still_port 0) EPD_Pin_BUSY \<and>
   stage_sweep (setFactor 25 (EPD_Class_ctor EPD_1_44 raw_object)) EPD_inverse = (4, 2, 16) \<and>
   (96 :: int) = uint (lines_per_display (setFactor 25 (EPD_Class_ctor EPD_1_44 raw_object))) \<and>
   (\<exists>st'. frame_fixed_13 (setFactor 25 (EPD_Class_ctor EPD_1_44 raw_object)) plain_defaults
        (still_port 0) 0xff EPD_inverse hw_reset = Some st' \<and>
        trace st' = trace hw_reset @
          concat (map (sweep_policy
                         (flush_line_events (setFactor 25 (EPD_Class_ctor EPD_1_44 raw_object)) plain_defaults (still_port 0))
                         (blank_line_events (setFactor 25 (EPD_Class_ctor EPD_1_44 raw_object)) plain_defaults (still_port 0))
                         (fixed_line_events (setFactor 25 (EPD_Class_ctor EPD_1_44 raw_object)) plain_defaults (still_port 0) 0xff EPD_inverse)
                         4 96)
                    (sweep_order 4 2 16 96))) \<and>
   (\<exists>st'. frame_data_13 (setFactor 25 (EPD_Class_ctor EPD_1_44 raw_object)) plain_defaults
        (still_port 0) 64 EPD_inverse hw_reset = Some st' \<and>
        trace st' = trace hw_reset @
          concat (map (sweep_policy
                         (flush_line_events (setFactor 25 (EPD_Class_ctor EPD_1_44 raw_object)) plain_defaults (still_port 0))
                         (blank_line_events (setFactor 25 (EPD_Class_ctor EPD_1_44 raw_object)) plain_defaults (still_port 0))
                         (data_line_events (setFactor 25 (EPD_Class_ctor EPD_1_44 raw_object)) plain_defaults (still_port 0) 64 EPD_inverse)
                         4 96)
                    (sweep_order 4 2 16 96))) \<and>
   (\<exists>(n, l, offset)\<in>set (sweep_order 4 2 16 96). l + offset = 95)"
proof -
  note c = frame_13_sweep [OF still_port_busy_clears refl ctor_144_sweep ctor_144_lines,
      where h = plain_defaults and fixed_value = "0xff" and img = 64 and st = hw_reset]
  have "(95 :: int) \<in> {0..<96}" by simp
  from bspec [OF conjunct2 [OF conjunct2 [OF c]] this]
  have c3: "\<exists>(n, l, offset)\<in>set (sweep_order 4 2 16 96). l + offset = 95" .
  show ?thesis
    by (rule conjI [OF still_port_busy_clears conjI [OF ctor_144_sweep conjI [OF ctor_144_lines
        conjI [OF conjunct1 [OF c] conjI [OF conjunct1 [OF conjunct2 [OF c]] c3]]]]])
qed

subsection \<open>Temperature bands and the stage timer\<close>

text \<open>
  C6. \<open>setFactor\<close> sets the temperature offset to 0 below 10 degrees, to 2 above 40
  and to 1 from 10 to 40, both bounds included, and selects the band of the panel's table
  at that offset. The default temperature is 25, so a constructed object has offset 1.
\<close>

theorem setFactor_band:
  "temperature_offset (setFactor t d) = (if t < 10 then 0 else if t \<le> 40 then 1 else 2) \<and>
   compensation (setFactor t d) =
     (case size_EPD d of
        EPD_1_44 \<Rightarrow> compensation_144
      | EPD_2_0 \<Rightarrow> compensation_200
      | EPD_2_7 \<Rightarrow> compensation_270) ! temperature_offset (setFactor t d) \<and>
   temperature_offset (setFactor 10 d) = 1 \<and>
   temperature_offset (setFactor 40 d) = 1 \<and>
   default_temperature = 25 \<and>
   temperature_offset (EPD_Class_ctor sz u) = 1"
proof -
  have "temperature_offset (EPD_Class_ctor sz u) = 1"
    by (cases sz) (simp_all add: EPD_Class_ctor_def Let_def setFactor_offset default_temperature_def)
  then show ?thesis
    using setFactor_compensation [of t d]
    by (simp add: setFactor_offset default_temperature_def)
qed

lemma stage_time_update_wrapped:
  assumes "t_end \<le> t_start"
  shows "stage_time_update stage_time t_start t_end = stage_time + (t_end - t_start)"
  using assms by (simp add: stage_time_update_def ULONG_MAX_def not_less [symmetric])

text \<open>
  C5. The clock wraps between the two readings of a pass: \<open>t_start = 0xFFFFFFF0\<close>,
  \<open>t_end = 0x00000010\<close>, 32 milliseconds later. The update of the source leaves 132
  of the 100 milliseconds that remained; without the wrap 68 would remain.
\<close>

theorem stage_time_update_at_wraparound:
  "stage_time_update 100 0xFFFFFFF0 0x00000010 = 132 \<and>
   (0x00000010 :: 32 word) - 0xFFFFFFF0 = 32 \<and>
   stage_time_update 100 0x00000100 0x00000120 = 68"
  by (simp add: stage_time_update_def ULONG_MAX_def)

subsection \<open>Frames read the image; power up and power down\<close>

lemma line_events_reads:
  assumes "data \<noteq> 0" and "b < unat (bytes_per_line d)"
  shows "mem_event pm (data + b) \<in> set (line_events d env line_no data fv pm stage bb)"
  using assms by (auto simp add: line_events_def pixel_events_def)

lemma ctor_144_normal_sweep:
  "stage_sweep (EPD_Class_ctor EPD_1_44 raw_object) EPD_normal = (4, 2, 16)"
  by (simp add: stage_sweep_def EPD_Class_ctor_def Let_def setFactor_compensation
      setFactor_offset compensation_144_def default_temperature_def)

lemma ctor_144_geometry:
  "lines_per_display (EPD_Class_ctor EPD_1_44 raw_object) = 96"
  "bytes_per_line (EPD_Class_ctor EPD_1_44 raw_object) = 16"
  by (simp_all add: EPD_Class_ctor_def Let_def setFactor_def)

text \<open>
  C10. The 1.44 inch panel has 96 lines of 16 bytes, so an image of exactly
  \<open>96 * 16 = 1536\<close> bytes at address 64 ends before address \<open>64 + 1536\<close>. In stage 3
  at the default temperature \<open>frame_data_13\<close> reads that address from program memory:
  the position 96 passes the test \<open>pos > total_lines\<close> and is written with image data.
\<close>

theorem frame_data_13_reads_past_image:
  "unat (lines_per_display (EPD_Class_ctor EPD_1_44 raw_object)) *
     unat (bytes_per_line (EPD_Class_ctor EPD_1_44 raw_object)) = 1536 \<and>
   Ev_pgm_read (64 + 1536) \<in> set (trace (the
     (frame_data_13 (EPD_Class_ctor EPD_1_44 raw_object) plain_defaults (still_port 0) 64
        EPD_normal hw_reset)))"
proof -
  let ?d = "EPD_Class_ctor EPD_1_44 raw_object"
  let ?policy = "sweep_policy (flush_line_events ?d plain_defaults (still_port 0))
       (blank_line_events ?d plain_defaults (still_port 0))
       (data_line_events ?d plain_defaults (still_port 0) 64 EPD_normal) 4
       (uint (lines_per_display ?d))"
  let ?order = "sweep_order 4 2 16 (uint (lines_per_display ?d))"
  have "(0 :: int) < 2" by simp
  from frame_data_13_returns [OF still_port_busy_clears [of 0 EPD_Pin_BUSY]
      ctor_144_normal_sweep this, where h = plain_defaults and img = 64 and st = hw_reset,
      THEN returns_trace]
  obtain st' where st': "frame_data_13 ?d plain_defaults (still_port 0) 64 EPD_normal hw_reset = Some st'"
    and tr: "trace st' = trace hw_reset @ concat (map ?policy ?order)"
    by auto
  have "(96 :: int) = -14 + int 55 * 2" by simp
  then have "(96 :: int) \<in> set (stripes 2 (96 + 2) (2 - 16))"
    unfolding stripes_def by (auto intro!: image_eqI [where x = 55])
  then have mem: "(0, 96, 0) \<in> set ?order"
    by (simp add: set_sweep_order ctor_144_geometry)
  have "Ev_pgm_read (64 + 1536) \<in> set (?policy (0, 96, 0))"
    using line_events_reads [of "64 + 1536" 0 ?d True "still_port 0" 96 0 EPD_normal 0]
    by (simp add: sweep_policy_def data_line_events_def ctor_144_geometry mem_event_def
        plain_defaults_def)
  with mem have "Ev_pgm_read (64 + 1536) \<in> set (concat (map ?policy ?order))"
    by (auto simp only: set_concat set_map intro!: UN_I)
  with st' tr show ?thesis by (simp add: ctor_144_geometry)
qed

lemma n_transfer_emit [simp]: "n_transfer (emit evs st) = n_transfer st + length (mosi evs)"
proof (induction evs arbitrary: st rule: rev_induct)
  case Nil
  show ?case by simp
next
  case (snoc e evs)
  have "emit (evs @ [e]) st = emit1 e (emit evs st)"
    by (simp add: emit_def)
  with snoc show ?case
    by (cases e) (simp_all add: emit1_def)
qed

lemma pin_level_emit_Nil: "pin_level (emit [] st) = pin_level st"
  by simp

lemma pin_level_emit_snoc:
  "pin_level (emit (evs @ [e]) st) =
     (case e of Ev_write pin level \<Rightarrow> (pin_level (emit evs st))(pin := level)
              | _ \<Rightarrow> pin_level (emit evs st))"
proof -
  have "emit (evs @ [e]) st = emit1 e (emit evs st)"
    by (simp add: emit_def)
  then show ?thesis
    by (cases e) (simp_all add: emit1_def)
qed

lemma discharge_pulses_emit:
  "i \<le> 10 \<Longrightarrow> discharge_pulses i st = emit (concat (replicate (10 - i) discharge_pulse_events)) st"
proof (induction "10 - i" arbitrary: i st)
  case 0
  then have "i = 10" by simp
  then show ?case by (simp add: discharge_pulses.simps [of 10])
next
  case (Suc k)
  then have lt: "i < 10" and k: "k = 10 - Suc i" and le: "Suc i \<le> 10" by simp_all
  from lt have r: "10 - i = Suc (10 - Suc i)" by simp
  show ?case
    using lt Suc.hyps(1) [OF k le]
    by (simp add: discharge_pulses.simps [of i] r prim_emit discharge_pulse_events_def Let_def)
qed

lemma power_off_emit: "power_off env st = emit power_off_events st"
  by (simp add: power_off_def Let_def prim_emit SPI_off_emit discharge_pulses_emit
      power_off_events_def)

lemma pin_level_pulses:
  "pin_level (emit (concat (replicate n discharge_pulse_events)) st) =
     (if n = 0 then pin_level st else (pin_level st)(EPD_Pin_DISCHARGE := False))"
proof (induction n arbitrary: st)
  case 0
  show ?case by simp
next
  case (Suc n)
  have "pin_level (emit discharge_pulse_events st) = (pin_level st)(EPD_Pin_DISCHARGE := False)"
    by (simp add: discharge_pulse_events_def emit_def emit1_def)
  then have p: "(if n = 0 then pin_level (emit discharge_pulse_events st)
       else (pin_level (emit discharge_pulse_events st))(EPD_Pin_DISCHARGE := False)) =
     (pin_level st)(EPD_Pin_DISCHARGE := False)"
    by simp
  have "emit (concat (replicate (Suc n) discharge_pulse_events)) st =
      emit (concat (replicate n discharge_pulse_events)) (emit discharge_pulse_events st)"
    by (simp add: emit_def)
  then have "pin_level (emit (concat (replicate (Suc n) discharge_pulse_events)) st) =
      pin_level (emit (concat (replicate n discharge_pulse_events)) (emit discharge_pulse_events st))"
    by (simp only:)
  also have "\<dots> = (if n = 0 then pin_level (emit discharge_pulse_events st)
       else (pin_level (emit discharge_pulse_events st))(EPD_Pin_DISCHARGE := False))"
    by (rule Suc)
  also note p
  finally show ?case by simp
qed

lemma power_off_pins:
  "pin_level (power_off env st) =
     (pin_level st)(EPD_Pin_RESET := False, EPD_Pin_PANEL_ON := False, EPD_Pin_BORDER := False,
        EPD_Pin_EPD_CS := False, EPD_Pin_DISCHARGE := False)"
proof -
  let ?pre = "[Ev_write EPD_Pin_RESET False, Ev_write EPD_Pin_PANEL_ON False,
      Ev_write EPD_Pin_BORDER False] @ SPI_off_events @ [Ev_write EPD_Pin_EPD_CS False]"
  have "power_off env st = emit (concat (replicate 10 discharge_pulse_events)) (emit ?pre st)"
    by (simp add: power_off_emit power_off_events_def)
  moreover have "pin_level (emit ?pre st) =
     (pin_level st)(EPD_Pin_RESET := False, EPD_Pin_PANEL_ON := False, EPD_Pin_BORDER := False,
        EPD_Pin_EPD_CS := False)"
    by (simp add: SPI_off_events_def emit_def emit1_def)
  ultimately show ?thesis
    by (simp only: pin_level_pulses) simp
qed

lemma SPI_read_loop_emit:
  "SPI_read_loop env buffer result st =
     (if buffer = [] then result else miso env (n_transfer st + length buffer - 1),
      emit (map Ev_transfer buffer) st)"
proof (induction buffer arbitrary: result st)
  case Nil
  show ?case by simp
next
  case (Cons c buffer)
  have "SPI_transfer env c st = (miso env (n_transfer st), emit [Ev_transfer c] st)"
    by (simp add: SPI_transfer_def emit_def emit1_def)
  with Cons show ?case by (cases buffer) simp_all
qed

lemma SPI_read_emit:
  "SPI_read env cs [a, b] st = (miso env (n_transfer st + 1), emit (SPI_send_events cs [a, b]) st)"
  by (simp add: SPI_read_def Let_def prim_emit SPI_read_loop_emit SPI_send_events_def)

lemma mosi_SPI_send_events [simp]: "mosi (SPI_send_events cs buffer) = buffer"
  by (induction buffer) (simp_all add: SPI_send_events_def)

lemma mosi_SPI_on_events [simp]: "mosi SPI_on_events = [0, 0]"
  by (simp add: SPI_on_events_def)

lemma mosi_pump_cycle_events:
  "mosi pump_cycle_events =
     [0x70, 0x05, 0x72, 0x01, 0x70, 0x05, 0x72, 0x03, 0x70, 0x05, 0x72, 0x0f, 0x70, 0x0f, 0x73, 0x00]"
  by (simp add: pump_cycle_events_def)

lemma charge_pump_step:
  assumes "i < 4"
  shows "charge_pump env i st =
     (if 0x40 = (0x40 AND miso env (n_transfer st + 15)) then (True, emit pump_cycle_events st)
      else charge_pump env (Suc i) (emit pump_cycle_events st))"
proof -
  let ?pre = "SPI_send_events EPD_Pin_EPD_CS [0x70, 0x05] @ SPI_send_events EPD_Pin_EPD_CS [0x72, 0x01] @
     [Ev_delay_ms 240] @
     SPI_send_events EPD_Pin_EPD_CS [0x70, 0x05] @ SPI_send_events EPD_Pin_EPD_CS [0x72, 0x03] @
     [Ev_delay_ms 40] @
     SPI_send_events EPD_Pin_EPD_CS [0x70, 0x05] @ SPI_send_events EPD_Pin_EPD_CS [0x72, 0x0f] @
     [Ev_delay_ms 40] @
     SPI_send_events EPD_Pin_EPD_CS [0x70, 0x0f]"
  have n: "n_transfer (emit ?pre st) + 1 = n_transfer st + 15" by simp
  have "SPI_read env EPD_Pin_EPD_CS [0x73, 0x00] (emit ?pre st) =
      (miso env (n_transfer st + 15), emit pump_cycle_events st)"
    unfolding SPI_read_emit n by (simp add: pump_cycle_events_def)
  with assms show ?thesis
    by (simp add: charge_pump.simps [of env i st] Let_def SPI_send_emit Delay_ms_emit
        del: n_transfer_emit)
qed

lemma charge_pump_all_fail:
  assumes "i \<le> 4" and "\<forall>k<4 - i. 0x40 \<noteq> (0x40 AND miso env (n_transfer st + 16 * k + 15))"
  shows "charge_pump env i st = (False, emit (concat (replicate (4 - i) pump_cycle_events)) st)"
  using assms
proof (induction "4 - i" arbitrary: i st)
  case 0
  then have "i = 4" by simp
  then show ?case by (simp add: charge_pump.simps [of env 4])
next
  case (Suc n)
  then have lt: "i < 4" and n: "n = 4 - Suc i" and le: "Suc i \<le> 4" by simp_all
  from lt have r: "4 - i = Suc (4 - Suc i)" by simp
  from Suc.prems(2) lt have f0: "0x40 \<noteq> (0x40 AND miso env (n_transfer st + 15))"
    by (auto dest: spec [of _ 0])
  have "\<forall>k<4 - Suc i. 0x40 \<noteq> (0x40 AND miso env (n_transfer (emit pump_cycle_events st) + 16 * k + 15))"
  proof (intro allI impI)
    fix k assume "k < 4 - Suc i"
    then have "Suc k < 4 - i" by simp
    with Suc.prems(2) have "0x40 \<noteq> (0x40 AND miso env (n_transfer st + 16 * Suc k + 15))"
      by blast
    then show "0x40 \<noteq> (0x40 AND miso env (n_transfer (emit pump_cycle_events st) + 16 * k + 15))"
      by (simp add: mosi_pump_cycle_events add.assoc add.left_commute)
  qed
  from Suc.hyps(1) [OF n le this] f0 show ?case
    by (simp add: charge_pump_step [OF lt] r)
qed

lemma charge_pump_success:
  assumes "i + j < 4"
    and "\<forall>k<j. 0x40 \<noteq> (0x40 AND miso env (n_transfer st + 16 * k + 15))"
    and "0x40 = (0x40 AND miso env (n_transfer st + 16 * j + 15))"
  shows "charge_pump env i st = (True, emit (concat (replicate (Suc j) pump_cycle_events)) st)"
  using assms
proof (induction j arbitrary: i st)
  case 0
  then show ?case by (simp add: charge_pump_step)
next
  case (Suc j)
  then have lt: "i < 4" and lt': "Suc i + j < 4" by simp_all
  from Suc.prems(2) have f0: "0x40 \<noteq> (0x40 AND miso env (n_transfer st + 15))"
    by (auto dest: spec [of _ 0])
  have fails: "\<forall>k<j. 0x40 \<noteq> (0x40 AND miso env (n_transfer (emit pump_cycle_events st) + 16 * k + 15))"
  proof (intro allI impI)
    fix k assume "k < j"
    then have "Suc k < Suc j" by simp
    with Suc.prems(2) have "0x40 \<noteq> (0x40 AND miso env (n_transfer st + 16 * Suc k + 15))"
      by blast
    then show "0x40 \<noteq> (0x40 AND miso env (n_transfer (emit pump_cycle_events st) + 16 * k + 15))"
      by (simp add: mosi_pump_cycle_events add.assoc add.left_commute)
  qed
  from Suc.prems(3)
  have ok: "0x40 = (0x40 AND miso env (n_transfer (emit pump_cycle_events st) + 16 * j + 15))"
    by (simp add: mosi_pump_cycle_events add.assoc add.left_commute)
  from Suc.IH [OF lt' fails ok] f0 show ?case
    by (simp add: charge_pump_step [OF lt])
qed

lemma wait_cog_ready_aux:
  "\<not> pin_input env EPD_Pin_BUSY (n_read st + k) \<Longrightarrow>
   \<exists>j\<le>k. wait_cog_ready env st =
     Some ((emit (replicate j (Ev_delay_us 10)) st)\<lparr>n_read := n_read st + Suc j\<rparr>)"
proof (induction k arbitrary: st)
  case 0
  then show ?case
    by (subst wait_cog_ready.simps) (simp add: digitalRead_def)
next
  case (Suc k)
  show ?case
  proof (cases "pin_input env EPD_Pin_BUSY (n_read st)")
    case False
    then have "wait_cog_ready env st = Some ((emit (replicate 0 (Ev_delay_us 10)) st)\<lparr>n_read := n_read st + Suc 0\<rparr>)"
      by (subst wait_cog_ready.simps) (simp add: digitalRead_def)
    then show ?thesis by blast
  next
    case True
    let ?st = "Delay_us 10 (st\<lparr>n_read := Suc (n_read st)\<rparr>)"
    have nr: "n_read ?st = Suc (n_read st)" by (simp add: Delay_us_emit)
    with Suc.prems have "\<not> pin_input env EPD_Pin_BUSY (n_read ?st + k)" by simp
    from Suc.IH [OF this] obtain j where j: "j \<le> k"
      and w: "wait_cog_ready env ?st =
        Some ((emit (replicate j (Ev_delay_us 10)) ?st)\<lparr>n_read := n_read ?st + Suc j\<rparr>)" by blast
    have "emit (replicate j (Ev_delay_us 10)) ?st =
       (emit (replicate (Suc j) (Ev_delay_us 10)) st)\<lparr>n_read := Suc (n_read st)\<rparr>"
      by (simp add: Delay_us_emit)
    with w nr have "wait_cog_ready env ?st =
        Some ((emit (replicate (Suc j) (Ev_delay_us 10)) st)\<lparr>n_read := n_read st + Suc (Suc j)\<rparr>)"
      by simp
    with True have "wait_cog_ready env st =
        Some ((emit (replicate (Suc j) (Ev_delay_us 10)) st)\<lparr>n_read := n_read st + Suc (Suc j)\<rparr>)"
      by (subst wait_cog_ready.simps) (simp add: digitalRead_def)
    with j show ?thesis by (intro exI [of _ "Suc j"]) simp
  qed
qed

lemma wait_cog_ready_returns:
  assumes "\<exists>m\<ge>n_read st. \<not> pin_input env EPD_Pin_BUSY m"
  shows "\<exists>j r. wait_cog_ready env (emit evs st) =
     Some ((emit (evs @ replicate j (Ev_delay_us 10)) st)\<lparr>n_read := r\<rparr>)"
proof -
  from assms obtain m where "m \<ge> n_read st" "\<not> pin_input env EPD_Pin_BUSY m" by blast
  then have "\<not> pin_input env EPD_Pin_BUSY (n_read (emit evs st) + (m - n_read st))" by simp
  from wait_cog_ready_aux [OF this] show ?thesis by auto
qed

lemma EPD_begin_after_ready:
  assumes w: "wait_cog_ready env (emit begin_power_up_events st) = Some s"
  shows "EPD_begin d env st = Some (
     if 0x02 \<noteq> (0x0f AND miso env (n_transfer s + 3)) then
       (d\<lparr>status := EPD_UNSUPPORTED_COG\<rparr>,
        power_off env (emit (SPI_send_events EPD_Pin_EPD_CS [0x71, 0x00] @
          SPI_send_events EPD_Pin_EPD_CS [0x71, 0x00]) s))
     else if 0x00 = (0x80 AND miso env (n_transfer s + 11)) then
       (d\<lparr>status := EPD_PANEL_BROKEN\<rparr>, power_off env (emit begin_check_events s))
     else begin_configure (d\<lparr>status := EPD_OK\<rparr>) env (emit begin_check_events s))"
proof -
  have r2: "SPI_read env EPD_Pin_EPD_CS [0x71, 0x00]
        (emit (SPI_send_events EPD_Pin_EPD_CS [0x71, 0x00]) s) =
      (miso env (n_transfer s + 3),
       emit (SPI_send_events EPD_Pin_EPD_CS [0x71, 0x00] @
         SPI_send_events EPD_Pin_EPD_CS [0x71, 0x00]) s)"
  proof -
    have n: "n_transfer (emit (SPI_send_events EPD_Pin_EPD_CS [0x71, 0x00]) s) + 1 = n_transfer s + 3"
      by simp
    show ?thesis unfolding SPI_read_emit n by simp
  qed
  have r3: "SPI_read env EPD_Pin_EPD_CS [0x73, 0x00]
        (emit (SPI_send_events EPD_Pin_EPD_CS [0x71, 0x00] @
          SPI_send_events EPD_Pin_EPD_CS [0x71, 0x00] @
          SPI_send_events EPD_Pin_EPD_CS [0x70, 0x02] @
          SPI_send_events EPD_Pin_EPD_CS [0x72, 0x40] @
          SPI_send_events EPD_Pin_EPD_CS [0x70, 0x0f]) s) =
      (miso env (n_transfer s + 11), emit begin_check_events s)"
  proof -
    have n: "n_transfer (emit (SPI_send_events EPD_Pin_EPD_CS [0x71, 0x00] @
          SPI_send_events EPD_Pin_EPD_CS [0x71, 0x00] @
          SPI_send_events EPD_Pin_EPD_CS [0x70, 0x02] @
          SPI_send_events EPD_Pin_EPD_CS [0x72, 0x40] @
          SPI_send_events EPD_Pin_EPD_CS [0x70, 0x0f]) s) + 1 = n_transfer s + 11"
      by simp
    show ?thesis unfolding SPI_read_emit n by (simp add: begin_check_events_def)
  qed
  from w show ?thesis
    by (simp add: EPD_begin_def Let_def prim_emit SPI_on_emit begin_power_up_events_def
        SPI_send_emit r2 r3 SPI_read_emit [of env _ _ _ s] del: n_transfer_emit)
qed

lemma mosi_replicate_delay [simp]: "mosi (replicate j (Ev_delay_us n)) = []"
  by (induction j) simp_all

lemma mosi_begin_power_up_events: "mosi begin_power_up_events = [0, 0]"
  by (simp add: begin_power_up_events_def)

lemma mosi_begin_check_events: "length (mosi begin_check_events) = 12"
  by (simp add: begin_check_events_def)

lemma mosi_begin_configure_events:
  "length (channel_select d) = 9 \<Longrightarrow> length (mosi (begin_configure_events d)) = 39"
  by (simp add: begin_configure_events_def)

lemma length_channel_select_ctor: "length (channel_select (EPD_Class_ctor sz u)) = 9"
  by (cases sz) (simp_all add: EPD_Class_ctor_def Let_def)

lemma begin_configure_emit:
  "begin_configure d env st =
     (case charge_pump env 0 (emit (begin_configure_events d) st) of
        (dc_ok, st') \<Rightarrow>
          if \<not> dc_ok then (d\<lparr>status := EPD_DC_FAILED\<rparr>, power_off env st')
          else (d, emit (SPI_send_events EPD_Pin_EPD_CS [0x70, 0x02] @
                  SPI_send_events EPD_Pin_EPD_CS [0x72, 0x40] @ SPI_off_events) st'))"
  by (simp add: begin_configure_def Let_def SPI_send_emit Delay_ms_emit SPI_off_emit
      begin_configure_events_def del: n_transfer_emit split: prod.splits)

lemma begin_ready_state:
  assumes "\<exists>m\<ge>n_read st. \<not> pin_input env EPD_Pin_BUSY m"
  shows "\<exists>s j. wait_cog_ready env (emit begin_power_up_events st) = Some s \<and>
     trace s = trace st @ begin_power_up_events @ replicate j (Ev_delay_us 10) \<and>
     n_transfer s = n_transfer st + 2"
proof -
  from wait_cog_ready_returns [OF assms, of begin_power_up_events] obtain j r where
    "wait_cog_ready env (emit begin_power_up_events st) =
       Some ((emit (begin_power_up_events @ replicate j (Ev_delay_us 10)) st)\<lparr>n_read := r\<rparr>)"
    by blast
  then show ?thesis
    by (intro exI [of _ "(emit (begin_power_up_events @ replicate j (Ev_delay_us 10)) st)\<lparr>n_read := r\<rparr>"]
        exI [of _ j]) (simp add: mosi_begin_power_up_events)
qed

text \<open>
  C8. The controller becomes ready, answers both ID reads with \<open>0x02\<close>, and answers
  the breakage read with bit \<open>0x80\<close> clear: \<open>begin\<close> returns with status
  \<open>EPD_PANEL_BROKEN\<close>, its last action is \<open>power_off\<close>, and the reset, panel-on,
  border, chip-select and discharge pins are low.
\<close>

theorem begin_panel_broken:
  assumes ready: "\<exists>m\<ge>n_read st. \<not> pin_input env EPD_Pin_BUSY m"
    and id1: "first_id_reply env st = 0x02"
    and id2: "cog_id_reply env st = 0x02"
    and broken: "0x80 AND broken_panel_reply env st = 0x00"
  shows "\<exists>d' st' s.
     EPD_begin d env st = Some (d', st') \<and>
     status d' = EPD_PANEL_BROKEN \<and>
     st' = power_off env s \<and>
     \<not> pin_level st' EPD_Pin_RESET \<and>
     \<not> pin_level st' EPD_Pin_PANEL_ON \<and>
     \<not> pin_level st' EPD_Pin_BORDER \<and>
     \<not> pin_level st' EPD_Pin_EPD_CS \<and>
     \<not> pin_level st' EPD_Pin_DISCHARGE"
proof -
  from begin_ready_state [OF ready] obtain s j where
    w: "wait_cog_ready env (emit begin_power_up_events st) = Some s"
    and n: "n_transfer s = n_transfer st + 2"
    by blast
  from n have i3: "n_transfer s + 3 = n_transfer st + 5"
    and i11: "n_transfer s + 11 = n_transfer st + 13" by simp_all
  have a: "0x0f AND miso env (n_transfer s + 3) = 0x02"
    unfolding i3 using id2 by (simp add: cog_id_reply_def)
  have b: "0x80 AND miso env (n_transfer s + 11) = 0x00"
    unfolding i11 using broken by (simp add: broken_panel_reply_def)
  from a b have "EPD_begin d env st =
      Some (d\<lparr>status := EPD_PANEL_BROKEN\<rparr>, power_off env (emit begin_check_events s))"
    by (simp add: EPD_begin_after_ready [OF w])
  then show ?thesis
    by (intro exI [of _ "d\<lparr>status := EPD_PANEL_BROKEN\<rparr>"]
        exI [of _ "power_off env (emit begin_check_events s)"]
        exI [of _ "emit begin_check_events s"]) (simp add: power_off_pins)
qed

theorem begin_panel_broken_witness:
  "n_read hw_reset \<le> 0 \<and> \<not> pin_input (still_port 0x02) EPD_Pin_BUSY 0 \<and>
   first_id_reply (still_port 0x02) hw_reset = 0x02 \<and>
   cog_id_reply (still_port 0x02) hw_reset = 0x02 \<and>
   0x80 AND broken_panel_reply (still_port 0x02) hw_reset = 0x00 \<and>
   (\<exists>d' st' s.
     EPD_begin (EPD_Class_ctor EPD_2_0 raw_object) (still_port 0x02) hw_reset = Some (d', st') \<and>
     status d' = EPD_PANEL_BROKEN \<and>
     st' = power_off (still_port 0x02) s \<and>
     \<not> pin_level st' EPD_Pin_RESET \<and>
     \<not> pin_level st' EPD_Pin_PANEL_ON \<and>
     \<not> pin_level st' EPD_Pin_BORDER \<and>
     \<not> pin_level st' EPD_Pin_EPD_CS \<and>
     \<not> pin_level st' EPD_Pin_DISCHARGE)"
proof -
  have h0: "n_read hw_reset \<le> 0" by (simp add: hw_reset_def)
  have h0': "\<not> pin_input (still_port 0x02) EPD_Pin_BUSY 0" by (simp add: still_port_def)
  from h0 h0' have h1: "\<exists>m\<ge>n_read hw_reset. \<not> pin_input (still_port 0x02) EPD_Pin_BUSY m"
    by blast
  have h2: "first_id_reply (still_port 0x02) hw_reset = 0x02"
    by (simp add: first_id_reply_def still_port_def)
  have h3: "cog_id_reply (still_port 0x02) hw_reset = 0x02"
    by (simp add: cog_id_reply_def still_port_def)
  have h4: "0x80 AND broken_panel_reply (still_port 0x02) hw_reset = 0x00"
    by (simp add: broken_panel_reply_def still_port_def)
  note c = begin_panel_broken [OF h1 h2 h3 h4, where d = "EPD_Class_ctor EPD_2_0 raw_object"]
  show ?thesis
    by (rule conjI [OF h0 conjI [OF h0' conjI [OF h2 conjI [OF h3 conjI [OF h4 c]]]]])
qed

lemma begin_pumps_state:
  assumes ready: "\<exists>m\<ge>n_read st. \<not> pin_input env EPD_Pin_BUSY m"
    and len: "length (channel_select d) = 9"
    and id: "0x0f AND cog_id_reply env st = 0x02"
    and panel: "0x80 AND broken_panel_reply env st \<noteq> 0x00"
  shows "\<exists>s j.
     EPD_begin d env st =
       Some (case charge_pump env 0 s of
               (dc_ok, st') \<Rightarrow>
                 if \<not> dc_ok then (d\<lparr>status := EPD_DC_FAILED\<rparr>, power_off env st')
                 else (d\<lparr>status := EPD_OK\<rparr>,
                       emit (SPI_send_events EPD_Pin_EPD_CS [0x70, 0x02] @
                         SPI_send_events EPD_Pin_EPD_CS [0x72, 0x40] @ SPI_off_events) st')) \<and>
     trace s = trace st @ begin_power_up_events @ replicate j (Ev_delay_us 10) @
       begin_check_events @ begin_configure_events d \<and>
     n_transfer s = n_transfer st + 53"
proof -
  from begin_ready_state [OF ready] obtain s j where
    w: "wait_cog_ready env (emit begin_power_up_events st) = Some s"
    and tr: "trace s = trace st @ begin_power_up_events @ replicate j (Ev_delay_us 10)"
    and n: "n_transfer s = n_transfer st + 2"
    by blast
  from n have i3: "n_transfer s + 3 = n_transfer st + 5"
    and i11: "n_transfer s + 11 = n_transfer st + 13" by simp_all
  have a: "0x0f AND miso env (n_transfer s + 3) = 0x02"
    unfolding i3 using id by (simp add: cog_id_reply_def)
  have b: "0x80 AND miso env (n_transfer s + 11) \<noteq> 0x00"
    unfolding i11 using panel by (simp add: broken_panel_reply_def)
  let ?s = "emit (begin_check_events @ begin_configure_events d) s"
  have cfg: "begin_configure_events (d\<lparr>status := EPD_OK\<rparr>) = begin_configure_events d"
    by (simp add: begin_configure_events_def)
  from a b have "EPD_begin d env st =
      Some (begin_configure (d\<lparr>status := EPD_OK\<rparr>) env (emit begin_check_events s))"
    by (simp add: EPD_begin_after_ready [OF w])
  then have run: "EPD_begin d env st =
       Some (case charge_pump env 0 ?s of
               (dc_ok, st') \<Rightarrow>
                 if \<not> dc_ok then (d\<lparr>status := EPD_DC_FAILED\<rparr>, power_off env st')
                 else (d\<lparr>status := EPD_OK\<rparr>,
                       emit (SPI_send_events EPD_Pin_EPD_CS [0x70, 0x02] @
                         SPI_send_events EPD_Pin_EPD_CS [0x72, 0x40] @ SPI_off_events) st'))"
    by (simp add: begin_configure_emit cfg del: n_transfer_emit split: prod.splits)
  have "n_transfer ?s = n_transfer s + (12 + 39)"
    by (simp add: mosi_begin_check_events mosi_begin_configure_events [OF len])
  with n have n': "n_transfer ?s = n_transfer st + 53" by simp
  from tr have tr': "trace ?s = trace st @ begin_power_up_events @ replicate j (Ev_delay_us 10) @
       begin_check_events @ begin_configure_events d" by simp
  from run tr' n' show ?thesis by blast
qed

lemma no_pump_delay_before:
  "Ev_delay_ms 240 \<notin> set (begin_power_up_events @ replicate j (Ev_delay_us 10) @
       begin_check_events @ begin_configure_events d)"
  by (auto simp add: begin_power_up_events_def begin_check_events_def begin_configure_events_def
      SPI_on_events_def SPI_send_events_def)

lemma begin_pumps_fail:
  assumes run: "EPD_begin d env st =
       Some (case charge_pump env 0 s of
               (dc_ok, st') \<Rightarrow>
                 if \<not> dc_ok then (d\<lparr>status := EPD_DC_FAILED\<rparr>, power_off env st')
                 else (d\<lparr>status := EPD_OK\<rparr>,
                       emit (SPI_send_events EPD_Pin_EPD_CS [0x70, 0x02] @
                         SPI_send_events EPD_Pin_EPD_CS [0x72, 0x40] @ SPI_off_events) st'))"
    and tr: "trace s = trace st @ pre"
    and fails: "\<forall>k<4. 0x40 \<noteq> (0x40 AND miso env (n_transfer s + 16 * k + 15))"
  shows "\<exists>d' st'.
     EPD_begin d env st = Some (d', st') \<and>
     trace st' = trace st @ pre @ concat (replicate 4 pump_cycle_events) @ power_off_events \<and>
     status d' = EPD_DC_FAILED"
proof -
  from fails have "\<forall>k<4 - 0. 0x40 \<noteq> (0x40 AND miso env (n_transfer s + 16 * k + 15))"
    by simp
  from charge_pump_all_fail [OF _ this]
  have cp: "charge_pump env 0 s = (False, emit (concat (replicate 4 pump_cycle_events)) s)"
    by simp
  have run': "EPD_begin d env st =
        Some (d\<lparr>status := EPD_DC_FAILED\<rparr>,
              power_off env (emit (concat (replicate 4 pump_cycle_events)) s))"
    unfolding run cp by simp
  have t: "trace (power_off env (emit (concat (replicate 4 pump_cycle_events)) s)) =
      trace st @ pre @ concat (replicate 4 pump_cycle_events) @ power_off_events"
    unfolding power_off_emit trace_emit tr by simp
  from run' t show ?thesis by simp
qed

lemma begin_pumps_ok:
  assumes run: "EPD_begin d env st =
       Some (case charge_pump env 0 s of
               (dc_ok, st') \<Rightarrow>
                 if \<not> dc_ok then (d\<lparr>status := EPD_DC_FAILED\<rparr>, power_off env st')
                 else (d\<lparr>status := EPD_OK\<rparr>,
                       emit (SPI_send_events EPD_Pin_EPD_CS [0x70, 0x02] @
                         SPI_send_events EPD_Pin_EPD_CS [0x72, 0x40] @ SPI_off_events) st'))"
    and tr: "trace s = trace st @ pre"
    and lt: "j < 4"
    and fails: "\<forall>k<j. 0x40 \<noteq> (0x40 AND miso env (n_transfer s + 16 * k + 15))"
    and ok: "0x40 = (0x40 AND miso env (n_transfer s + 16 * j + 15))"
  shows "\<exists>d' st'.
     EPD_begin d env st = Some (d', st') \<and>
     trace st' = trace st @ pre @ concat (replicate (Suc j) pump_cycle_events) @
       SPI_send_events EPD_Pin_EPD_CS [0x70, 0x02] @
       SPI_send_events EPD_Pin_EPD_CS [0x72, 0x40] @ SPI_off_events \<and>
     status d' = EPD_OK"
proof -
  from lt have "0 + j < 4" by simp
  from charge_pump_success [OF this fails ok]
  have cp: "charge_pump env 0 s = (True, emit (concat (replicate (Suc j) pump_cycle_events)) s)" .
  let ?st' = "emit (SPI_send_events EPD_Pin_EPD_CS [0x70, 0x02] @
                         SPI_send_events EPD_Pin_EPD_CS [0x72, 0x40] @ SPI_off_events)
                (emit (concat (replicate (Suc j) pump_cycle_events)) s)"
  have run': "EPD_begin d env st = Some (d\<lparr>status := EPD_OK\<rparr>, ?st')"
    unfolding run cp by simp
  have t: "trace ?st' = trace st @ pre @ concat (replicate (Suc j) pump_cycle_events) @
        SPI_send_events EPD_Pin_EPD_CS [0x70, 0x02] @
        SPI_send_events EPD_Pin_EPD_CS [0x72, 0x40] @ SPI_off_events"
    unfolding trace_emit tr by simp
  from run' t show ?thesis by simp
qed

text \<open>
  C7. The controller becomes ready and passes the ID and breakage checks. Let \<open>j\<close> be
  the number of charge-pump attempts whose status read has bit \<open>0x40\<close> clear before the
  first that has it set (\<open>j = 4\<close> when none of the four has it set). Then \<open>begin\<close>
  returns, and after a prefix with no 240 ms delay its trace is \<open>min (j + 1) 4\<close> pump
  cycles (positive pump, 240 ms, negative pump, 40 ms, Vcom pump, 40 ms, status read)
  followed, when \<open>j = 4\<close>, by \<open>power_off\<close> with status \<open>EPD_DC_FAILED\<close>, and otherwise by
  the output-enable command and the end of the SPI session with status \<open>EPD_OK\<close>.
\<close>

theorem begin_charge_pump_retries:
  assumes ready: "\<exists>m\<ge>n_read st. \<not> pin_input env EPD_Pin_BUSY m"
    and d: "d = EPD_Class_ctor sz u"
    and id: "0x0f AND cog_id_reply env st = 0x02"
    and panel: "0x80 AND broken_panel_reply env st \<noteq> 0x00"
    and fails: "\<forall>k<j. 0x40 AND dc_state_reply env st k \<noteq> 0x40"
    and last: "j = 4 \<or> (j < 4 \<and> 0x40 AND dc_state_reply env st j = 0x40)"
  shows "\<exists>d' st' pre.
     EPD_begin d env st = Some (d', st') \<and>
     trace st' = trace st @ pre @ concat (replicate (min (Suc j) 4) pump_cycle_events) @
       (if j = 4 then power_off_events
        else SPI_send_events EPD_Pin_EPD_CS [0x70, 0x02] @
             SPI_send_events EPD_Pin_EPD_CS [0x72, 0x40] @ SPI_off_events) \<and>
     Ev_delay_ms 240 \<notin> set pre \<and>
     status d' = (if j = 4 then EPD_DC_FAILED else EPD_OK)"
proof -
  have len: "length (channel_select d) = 9"
    unfolding d by (rule length_channel_select_ctor)
  from begin_pumps_state [OF ready len id panel] obtain s j0 where
    run: "EPD_begin d env st =
       Some (case charge_pump env 0 s of
               (dc_ok, st') \<Rightarrow>
                 if \<not> dc_ok then (d\<lparr>status := EPD_DC_FAILED\<rparr>, power_off env st')
                 else (d\<lparr>status := EPD_OK\<rparr>,
                       emit (SPI_send_events EPD_Pin_EPD_CS [0x70, 0x02] @
                         SPI_send_events EPD_Pin_EPD_CS [0x72, 0x40] @ SPI_off_events) st'))"
    and tr: "trace s = trace st @ (begin_power_up_events @ replicate j0 (Ev_delay_us 10) @
       begin_check_events @ begin_configure_events d)"
    and n: "n_transfer s = n_transfer st + 53"
    by (elim exE conjE) simp
  let ?pre = "begin_power_up_events @ replicate j0 (Ev_delay_us 10) @
       begin_check_events @ begin_configure_events d"
  have nd: "Ev_delay_ms 240 \<notin> set ?pre"
    by (rule no_pump_delay_before)
  have idx: "n_transfer s + 16 * k + 15 = n_transfer st + 68 + 16 * k" for k
    using n by simp
  have fails': "\<forall>k<j. 0x40 \<noteq> (0x40 AND miso env (n_transfer s + 16 * k + 15))"
  proof (intro allI impI)
    fix k assume "k < j"
    with fails have "0x40 AND dc_state_reply env st k \<noteq> 0x40" by blast
    then show "0x40 \<noteq> (0x40 AND miso env (n_transfer s + 16 * k + 15))"
      unfolding idx dc_state_reply_def by (rule not_sym)
  qed
  from last show ?thesis
  proof
    assume j4: "j = 4"
    from fails' have f4: "\<forall>k<4. 0x40 \<noteq> (0x40 AND miso env (n_transfer s + 16 * k + 15))"
      unfolding j4 .
    from begin_pumps_fail [OF run tr f4] obtain d' st' where
      r: "EPD_begin d env st = Some (d', st')"
      and t: "trace st' = trace st @ ?pre @ concat (replicate 4 pump_cycle_events) @ power_off_events"
      and s: "status d' = EPD_DC_FAILED"
      by (elim exE conjE)
    have m: "min (Suc 4) 4 = (4 :: nat)" by simp
    have "\<exists>d' st' pre.
     EPD_begin d env st = Some (d', st') \<and>
     trace st' = trace st @ pre @ concat (replicate 4 pump_cycle_events) @ power_off_events \<and>
     Ev_delay_ms 240 \<notin> set pre \<and>
     status d' = EPD_DC_FAILED"
      by (rule exI [of _ d'], rule exI [of _ st'], rule exI [of _ ?pre],
          rule conjI [OF r conjI [OF t conjI [OF nd s]]])
    then show ?thesis by (simp only: j4 m if_P [OF refl])
  next
    assume "j < 4 \<and> 0x40 AND dc_state_reply env st j = 0x40"
    then have lt: "j < 4" and dcj: "0x40 AND dc_state_reply env st j = 0x40" by simp_all
    from dcj have ok: "0x40 = (0x40 AND miso env (n_transfer s + 16 * j + 15))"
      unfolding idx dc_state_reply_def by (rule sym)
    from begin_pumps_ok [OF run tr lt fails' ok] obtain d' st' where
      r: "EPD_begin d env st = Some (d', st')"
      and t: "trace st' = trace st @ ?pre @ concat (replicate (Suc j) pump_cycle_events) @
        SPI_send_events EPD_Pin_EPD_CS [0x70, 0x02] @
        SPI_send_events EPD_Pin_EPD_CS [0x72, 0x40] @ SPI_off_events"
      and s: "status d' = EPD_OK"
      by (elim exE conjE)
    from lt have m: "min (Suc j) 4 = Suc j" and j4: "(j = 4) = False" by simp_all
    have "\<exists>d' st' pre.
     EPD_begin d env st = Some (d', st') \<and>
     trace st' = trace st @ pre @ concat (replicate (Suc j) pump_cycle_events) @
        SPI_send_events EPD_Pin_EPD_CS [0x70, 0x02] @
        SPI_send_events EPD_Pin_EPD_CS [0x72, 0x40] @ SPI_off_events \<and>
     Ev_delay_ms 240 \<notin> set pre \<and>
     status d' = EPD_OK"
      by (rule exI [of _ d'], rule exI [of _ st'], rule exI [of _ ?pre],
          rule conjI [OF r conjI [OF t conjI [OF nd s]]])
    then show ?thesis by (simp only: j4 m if_False)
  qed
qed

theorem begin_charge_pump_retries_witness:
  "n_read hw_reset \<le> 0 \<and> \<not> pin_input (still_port 0x82) EPD_Pin_BUSY 0 \<and>
   0x0f AND cog_id_reply (still_port 0x82) hw_reset = 0x02 \<and>
   0x80 AND broken_panel_reply (still_port 0x82) hw_reset \<noteq> 0x00 \<and>
   0x40 AND dc_state_reply (still_port 0x82) hw_reset 0 \<noteq> 0x40 \<and>
   0x40 AND dc_state_reply (still_port 0x82) hw_reset 1 \<noteq> 0x40 \<and>
   0x40 AND dc_state_reply (still_port 0x82) hw_reset 2 \<noteq> 0x40 \<and>
   0x40 AND dc_state_reply (still_port 0x82) hw_reset 3 \<noteq> 0x40 \<and>
   (\<exists>d' st' pre.
     EPD_begin (EPD_Class_ctor EPD_2_0 raw_object) (still_port 0x82) hw_reset = Some (d', st') \<and>
     trace st' = trace hw_reset @ pre @ concat (replicate (min (Suc 4) 4) pump_cycle_events) @
       (if (4 :: nat) = 4 then power_off_events
        else SPI_send_events EPD_Pin_EPD_CS [0x70, 0x02] @
             SPI_send_events EPD_Pin_EPD_CS [0x72, 0x40] @ SPI_off_events) \<and>
     Ev_delay_ms 240 \<notin> set pre \<and>
     status d' = (if (4 :: nat) = 4 then EPD_DC_FAILED else EPD_OK))"
proof -
  have h0: "n_read hw_reset \<le> 0" by (simp add: hw_reset_def)
  have h0': "\<not> pin_input (still_port 0x82) EPD_Pin_BUSY 0" by (simp add: still_port_def)
  from h0 h0' have h1: "\<exists>m\<ge>n_read hw_reset. \<not> pin_input (still_port 0x82) EPD_Pin_BUSY m"
    by blast
  have h2: "0x0f AND cog_id_reply (still_port 0x82) hw_reset = 0x02"
    by (simp add: cog_id_reply_def still_port_def)
  have h3: "0x80 AND broken_panel_reply (still_port 0x82) hw_reset \<noteq> 0x00"
    by (simp add: broken_panel_reply_def still_port_def)
  have dc: "0x40 AND dc_state_reply (still_port 0x82) hw_reset k \<noteq> 0x40" for k
    by (simp add: dc_state_reply_def still_port_def)
  then have h4: "\<forall>k<4. 0x40 AND dc_state_reply (still_port 0x82) hw_reset k \<noteq> 0x40"
    by blast
  note c = begin_charge_pump_retries [OF h1 refl h2 h3 h4 disjI1 [OF refl],
      where sz = EPD_2_0 and u = raw_object]
  show ?thesis
    by (rule conjI [OF h0 conjI [OF h0' conjI [OF h2 conjI [OF h3 conjI [OF dc conjI [OF dc
        conjI [OF dc conjI [OF dc c]]]]]]]])
qed

lemma end_dummy_lines_returns:
  assumes "busy_clears env EPD_Pin_BUSY"
  shows "returns (end_dummy_lines d h env st) st (end_dummy_events d h env)"
proof (cases "size_EPD d = EPD_2_7")
  case True
  then show ?thesis
    using returns_Some [of "[Ev_delay_ms 25, Ev_write EPD_Pin_BORDER False, Ev_delay_ms 250,
         Ev_write EPD_Pin_BORDER True]" st]
    by (simp add: end_dummy_lines_def end_dummy_events_def Let_def prim_emit)
next
  case False
  have d25: "\<And>s. returns (Some (Delay_ms 25 s)) s [Ev_delay_ms 25]"
    using returns_Some by (simp add: Delay_ms_emit)
  note l3 = returns_bind [OF line_returns [OF assms, of d "0x7fff" 0 "0x00" False EPD_normal
        "default_border_byte h"] d25]
  have s3: "\<And>s. returns (line d env 0x7fff 0 0x00 False EPD_normal (default_border_byte h)
        (Delay_ms 200 s) \<bind> (\<lambda>st. Some (Delay_ms 25 st))) s
      ([Ev_delay_ms 200] @ line_events d env 0x7fff 0 0x00 False EPD_normal (default_border_byte h) @
        [Ev_delay_ms 25])"
    unfolding Delay_ms_emit [of 200] by (rule returns_emit) (rule l3)
  note l2 = returns_bind [OF line_returns [OF assms, of d "0x7fff" 0 "0x00" False EPD_normal
        "0xaa"] s3]
  have s2: "\<And>s. returns (line d env 0x7fff 0 0x00 False EPD_normal 0xaa (Delay_ms 40 s) \<bind>
       (\<lambda>st'. line d env 0x7fff 0 0x00 False EPD_normal (default_border_byte h)
        (Delay_ms 200 st') \<bind> (\<lambda>st. Some (Delay_ms 25 st)))) s
      ([Ev_delay_ms 40] @ line_events d env 0x7fff 0 0x00 False EPD_normal 0xaa @
       [Ev_delay_ms 200] @ line_events d env 0x7fff 0 0x00 False EPD_normal (default_border_byte h) @
        [Ev_delay_ms 25])"
    unfolding Delay_ms_emit [of 40] by (rule returns_emit) (rule l2)
  note l1 = returns_bind [OF line_returns [OF assms, of d "0x7fff" 0 "0x00" False EPD_normal
        "0xff"] s2]
  from False l1 [of st] show ?thesis
    by (simp add: end_dummy_lines_def end_dummy_events_def Let_def eq_commute [of EPD_2_7])
qed

lemma EPD_end_after_dummy:
  assumes "end_dummy_lines d h env st = Some s"
  shows "\<exists>d' evs. EPD_end d h env st = Some (d', emit evs s)"
proof (cases "0x40 \<noteq> (0x40 AND miso env (n_transfer (emit (SPI_on_events @
    SPI_send_events EPD_Pin_EPD_CS [0x70, 0x0f]) s) + 1))")
  case True
  with assms have "EPD_end d h env st = Some (d\<lparr>status := EPD_DC_FAILED\<rparr>,
      emit (SPI_on_events @ SPI_send_events EPD_Pin_EPD_CS [0x70, 0x0f] @
        SPI_send_events EPD_Pin_EPD_CS [0x73, 0x00] @ power_off_events) s)"
    by (simp add: EPD_end_def Let_def SPI_on_emit SPI_send_emit SPI_read_emit power_off_emit
        del: n_transfer_emit)
  then show ?thesis by blast
next
  case False
  with assms have "\<exists>evs. EPD_end d h env st = Some (d, emit evs s)"
    apply (simp add: EPD_end_def Let_def SPI_on_emit SPI_send_emit SPI_read_emit power_off_emit
        Delay_ms_emit del: n_transfer_emit)
    apply (rule exI, rule refl)
    done
  then show ?thesis by blast
qed

subsection \<open>The teardown of end\<close>

lemma prefix_nth:
  assumes "prefix xs ys" and "i < length xs"
  shows "xs ! i = ys ! i"
  using assms by (auto simp add: prefix_def nth_append)

lemma line_events_fixed_nth_17:
  assumes "0 < unat (bytes_per_line d)"
  shows "(line_events d env line_no 0 fixed_value read_progmem stage border_byte @ rest) ! 17 =
           Ev_transfer fixed_value"
    and "17 < length (line_events d env line_no 0 fixed_value read_progmem stage border_byte @ rest)"
proof -
  let ?head = "SPI_on_events @ SPI_send_events EPD_Pin_EPD_CS [0x70, 0x0a] @
     [Ev_delay_us 10, Ev_write EPD_Pin_EPD_CS False, Ev_transfer 0x72, Ev_transfer border_byte]"
  from assms obtain m where m: "unat (bytes_per_line d) = Suc m"
    by (cases "unat (bytes_per_line d)") simp_all
  have len: "length ?head = 17"
    by (simp add: SPI_on_events_def SPI_send_events_def)
  have "\<exists>tl. line_events d env line_no 0 fixed_value read_progmem stage border_byte @ rest =
      ?head @ Ev_transfer fixed_value # tl"
    by (simp add: line_events_def m pixel_events_def)
  then obtain tl where eq: "line_events d env line_no 0 fixed_value read_progmem stage border_byte @ rest =
      ?head @ Ev_transfer fixed_value # tl" ..
  show "(line_events d env line_no 0 fixed_value read_progmem stage border_byte @ rest) ! 17 =
           Ev_transfer fixed_value"
    unfolding eq using len by (simp only: nth_append_length [of ?head, unfolded len])
  show "17 < length (line_events d env line_no 0 fixed_value read_progmem stage border_byte @ rest)"
    unfolding eq using len by simp
qed

lemma EPD_end_prefix:
  assumes busy: "busy_clears env EPD_Pin_BUSY"
  shows "\<exists>d' st'.
     EPD_end d h env st = Some (d', st') \<and>
     prefix (trace st @ end_dummy_events d h env) (trace st')"
proof -
  from end_dummy_lines_returns [OF busy, of d h st, THEN returns_trace]
  obtain s where s: "end_dummy_lines d h env st = Some s"
    and tr: "trace s = trace st @ end_dummy_events d h env" by (elim exE conjE)
  from EPD_end_after_dummy [OF s] obtain d' evs where
    r: "EPD_end d h env st = Some (d', emit evs s)" by (elim exE)
  have p: "prefix (trace st @ end_dummy_events d h env) (trace (emit evs s))"
    unfolding trace_emit tr by (simp add: prefix_def)
  show ?thesis
    by (rule exI [of _ d'], rule exI [of _ "emit evs s"], rule conjI [OF r p])
qed

text \<open>
  C9, as amended. \<open>end\<close> returns when the busy line clears. For the 2.7 inch panel its
  trace begins with 25 ms, border low, 250 ms, border high. For the other panels it begins
  with three calls of \<open>line\<close> for the index \<open>0x7fff\<close>, without data, with the fixed
  value \<open>0x00\<close> in the normal stage, whose border bytes are \<open>0xff\<close>, \<open>0xaa\<close> and the
  default border byte, followed by delays of 40, 200 and 25 ms.
\<close>

theorem end_dummy_lines_first:
  assumes busy: "busy_clears env EPD_Pin_BUSY"
  shows "\<exists>d' st'.
     EPD_end d h env st = Some (d', st') \<and>
     prefix
       (trace st @
        (if size_EPD d = EPD_2_7 then
           [Ev_delay_ms 25, Ev_write EPD_Pin_BORDER False, Ev_delay_ms 250,
            Ev_write EPD_Pin_BORDER True]
         else
           line_events d env 0x7fff 0 0x00 False EPD_normal 0xff @ [Ev_delay_ms 40] @
           line_events d env 0x7fff 0 0x00 False EPD_normal 0xaa @ [Ev_delay_ms 200] @
           line_events d env 0x7fff 0 0x00 False EPD_normal (default_border_byte h) @
           [Ev_delay_ms 25]))
       (trace st')"
  using EPD_end_prefix [OF busy, of d h st] unfolding end_dummy_events_def .

theorem end_dummy_lines_first_witness:
  "busy_clears (still_port 0x40) EPD_Pin_BUSY \<and>
   (\<exists>d' st'.
     EPD_end (EPD_Class_ctor EPD_2_0 raw_object) plain_defaults (still_port 0x40) hw_reset = Some (d', st') \<and>
     prefix
       (trace hw_reset @
        (if size_EPD (EPD_Class_ctor EPD_2_0 raw_object) = EPD_2_7 then
           [Ev_delay_ms 25, Ev_write EPD_Pin_BORDER False, Ev_delay_ms 250,
            Ev_write EPD_Pin_BORDER True]
         else
           line_events (EPD_Class_ctor EPD_2_0 raw_object) (still_port 0x40) 0x7fff 0 0x00 False EPD_normal 0xff @ [Ev_delay_ms 40] @
           line_events (EPD_Class_ctor EPD_2_0 raw_object) (still_port 0x40) 0x7fff 0 0x00 False EPD_normal 0xaa @ [Ev_delay_ms 200] @
           line_events (EPD_Class_ctor EPD_2_0 raw_object) (still_port 0x40) 0x7fff 0 0x00 False EPD_normal (default_border_byte plain_defaults) @
           [Ev_delay_ms 25]))
       (trace st'))"
  by (rule conjI [OF still_port_busy_clears end_dummy_lines_first [OF still_port_busy_clears]])

lemma ctor_200_geometry:
  "lines_per_display (EPD_Class_ctor EPD_2_0 raw_object) = 96"
  "bytes_per_line (EPD_Class_ctor EPD_2_0 raw_object) = 25"
  "size_EPD (EPD_Class_ctor EPD_2_0 raw_object) = EPD_2_0"
  by (simp_all add: EPD_Class_ctor_def Let_def setFactor_def)

text \<open>
  C9, as stated, fails on the 2.0 inch panel: the trace of \<open>end\<close> does not begin with
  full frames of the values \<open>0xff\<close>, \<open>0xaa\<close>, \<open>0x00\<close> and the three delays. The first
  pixel byte that \<open>end\<close> shifts out is \<open>0x00\<close>, where a frame of \<open>0xff\<close> has \<open>0xff\<close>.
\<close>

theorem end_full_frames_counterexample:
  "\<not> prefix
       (trace hw_reset @
        full_frame_events (EPD_Class_ctor EPD_2_0 raw_object) plain_defaults (still_port 0x40) 0xff @
        [Ev_delay_ms 40] @
        full_frame_events (EPD_Class_ctor EPD_2_0 raw_object) plain_defaults (still_port 0x40) 0xaa @
        [Ev_delay_ms 200] @
        full_frame_events (EPD_Class_ctor EPD_2_0 raw_object) plain_defaults (still_port 0x40) 0x00 @
        [Ev_delay_ms 25])
       (trace (snd (the (EPD_end (EPD_Class_ctor EPD_2_0 raw_object) plain_defaults
          (still_port 0x40) hw_reset))))"
proof
  let ?d = "EPD_Class_ctor EPD_2_0 raw_object"
  let ?env = "still_port 0x40"
  let ?claimed = "trace hw_reset @
        full_frame_events ?d plain_defaults ?env 0xff @ [Ev_delay_ms 40] @
        full_frame_events ?d plain_defaults ?env 0xaa @ [Ev_delay_ms 200] @
        full_frame_events ?d plain_defaults ?env 0x00 @ [Ev_delay_ms 25]"
  let ?actual = "line_events ?d ?env 0x7fff 0 0x00 False EPD_normal 0xff @ ([Ev_delay_ms 40] @
           line_events ?d ?env 0x7fff 0 0x00 False EPD_normal 0xaa @ [Ev_delay_ms 200] @
           line_events ?d ?env 0x7fff 0 0x00 False EPD_normal (default_border_byte plain_defaults) @
           [Ev_delay_ms 25])"
  assume claimed: "prefix ?claimed
     (trace (snd (the (EPD_end ?d plain_defaults ?env hw_reset))))"
  from EPD_end_prefix [OF still_port_busy_clears [of "0x40" EPD_Pin_BUSY],
      where d = ?d and h = plain_defaults and st = hw_reset]
  obtain d' st' where r: "EPD_end ?d plain_defaults ?env hw_reset = Some (d', st')"
    and actual: "prefix ?actual (trace st')"
    by (elim exE conjE) (simp add: end_dummy_events_def ctor_200_geometry hw_reset_def)
  have bpl: "0 < unat (bytes_per_line ?d)" by (simp add: ctor_200_geometry)
  have "[0..<unat (lines_per_display ?d)] = 0 # [1..<96]"
    by (simp add: ctor_200_geometry upt_conv_Cons)
  then have "\<exists>rest. ?claimed =
      line_events ?d ?env 0 0 0xff False (default_stage plain_defaults)
        (default_border_byte plain_defaults) @ rest"
    by (simp add: full_frame_events_def hw_reset_def)
  then obtain rest where c: "?claimed =
      line_events ?d ?env 0 0 0xff False (default_stage plain_defaults)
        (default_border_byte plain_defaults) @ rest" ..
  from line_events_fixed_nth_17 [OF bpl] c
  have c17: "?claimed ! 17 = Ev_transfer 0xff" and cl: "17 < length ?claimed"
    by simp_all
  from line_events_fixed_nth_17 [OF bpl]
  have a17: "?actual ! 17 = Ev_transfer 0x00" and al: "17 < length ?actual"
    by blast+
  from claimed r have "prefix ?claimed (trace st')" by simp
  from prefix_nth [OF this cl] prefix_nth [OF actual al] c17 a17
  show False by simp
qed

end
